theory Spec2Isabelle
  imports Main
begin

section \<open>Values and errors\<close>

text \<open>
  The script \<^verbatim>\<open>app.py\<close> works on pandas tables whose cells are Python objects.
  A cell is a string, the missing value (NaN), some other scalar (a number or a
  boolean read from the CSV, or a predicted value), or the list of integers that
  \<^verbatim>\<open>compute_morgan_fingerprint\<close> returns. The type \<open>'n\<close> stands for the scalars;
  floating point arithmetic is never looked into.
\<close>

datatype 'n cell = Str string | NaN | Num 'n | FpList "int list"

text \<open>
  Every exception the script can meet is a value. \<open>TypeError\<close> is what the RDKit
  binding raises when \<^verbatim>\<open>Chem.MolFromSmiles\<close> is handed an object that is not a string,
  \<open>KeyError\<close> is raised by pandas with the column labels it did not find, \<open>ValueError\<close> by
  pandas for data whose shape does not fit, and \<open>ModelError\<close> is anything raised from
  inside the loaded model.
\<close>

datatype error = TypeError | KeyError "string list" | ValueError | ModelError

text \<open>The feature table \<open>X\<close> of integers, held by rows under its column labels.\<close>

record matrix =
  mcolumns :: "string list"
  mrows :: "int list list"

section \<open>The fingerprint encoder\<close>

text \<open>
  \<^verbatim>\<open>morgan_gen = rdFingerprintGenerator.GetMorganGenerator(radius=2, fpSize=1024)\<close>
\<close>

record generator =
  radius :: nat
  fpSize :: nat

definition morgan_gen :: generator where
  "morgan_gen = \<lparr>radius = 2, fpSize = 1024\<rparr>"

text \<open>
  The cheminformatics library is an external collaborator. Two of its functions are
  parameters of the development, collected in a record together with the two artifacts
  loaded at start-up:
  \<^item> \<open>MolFromSmiles\<close>: the SMILES parser on strings, \<open>None\<close> when parsing fails;
  \<^item> \<open>atom_env_hashes\<close>: for a radius and a molecule, the hash values of the circular
    atom neighbourhoods up to that radius;
  \<^item> \<open>reduced_columns\<close>: the list returned by \<^verbatim>\<open>load_reduced_columns()\<close>;
  \<^item> \<open>model_predict\<close>: \<^verbatim>\<open>model.predict\<close> of the model returned by
    \<^verbatim>\<open>load_trained_model()\<close>, on the selected feature table; it returns the
    predictions or raises.
\<close>

record ('m, 'n) env =
  MolFromSmiles :: "string \<Rightarrow> 'm option"
  atom_env_hashes :: "nat \<Rightarrow> 'm \<Rightarrow> nat list"
  reduced_columns :: "string list"
  model_predict :: "matrix \<Rightarrow> error + 'n list"

text \<open>
  Modelled from the spec: the bit vector that \<^verbatim>\<open>morgan_gen.GetFingerprint(mol)\<close> returns.
  The library is not part of the repository; the spec says that each substructure is
  hashed into the range \<open>[0, fpSize)\<close> and that the corresponding position is set. The
  vector has \<open>fpSize\<close> positions.
\<close>

definition GetFingerprint :: "('m, 'n) env \<Rightarrow> generator \<Rightarrow> 'm \<Rightarrow> bool list" where
  "GetFingerprint e g mol =
     map (\<lambda>i. i \<in> set (map (\<lambda>h. h mod fpSize g) (atom_env_hashes e (radius g) mol)))
       [0..<fpSize g]"

text \<open>\<^verbatim>\<open>list(fp)\<close>: iterating over a bit vector yields the integers 0 and 1.\<close>

definition list_of_fp :: "bool list \<Rightarrow> int list" where
  "list_of_fp fp = map (\<lambda>b. if b then 1 else 0) fp"

text \<open>
  \<^verbatim>\<open>
  def compute_morgan_fingerprint(smiles):
      mol = Chem.MolFromSmiles(smiles)
      if mol:
          fp = morgan_gen.GetFingerprint(mol)
          return list(fp)
      else:
          return [0] * 1024
  \<close>
  The argument is whatever object the table cell holds. On an object that is not a
  string the call of the parser raises; on a string it returns a molecule or \<open>None\<close>,
  and a molecule object is always true.
\<close>

definition compute_morgan_fingerprint :: "('m, 'n) env \<Rightarrow> 'n cell \<Rightarrow> error + int list" where
  "compute_morgan_fingerprint e smiles =
     (case smiles of
        Str s \<Rightarrow>
          (case MolFromSmiles e s of
             Some mol \<Rightarrow> Inr (list_of_fp (GetFingerprint e morgan_gen mol))
           | None \<Rightarrow> Inr (replicate 1024 0))
      | _ \<Rightarrow> Inl TypeError)"

section \<open>Text constants of the script\<close>

text \<open>
  Python strings are written as their UTF-8 bytes, so that a letter outside ASCII takes
  two characters here. Only equality of strings is ever used.
\<close>

definition col_SMILES :: string where
  "col_SMILES = ''SMILES''"

definition col_Fingerprint :: string where
  "col_Fingerprint = ''Fingerprint''"

definition col_prediction :: string where
  \<comment> \<open>the prediction column; the letters after \<open>Predi\<close> are c with cedilla and a with tilde\<close>
  "col_prediction = ''Predi'' @ [CHR 0xC3, CHR 0xA7, CHR 0xC3, CHR 0xA3] @ ''o_Bioatividade''"

definition msg_example_loaded :: string where
  "msg_example_loaded = ''Dados de exemplo carregados!''"

definition msg_preview :: string where
  "msg_preview = ''Pr'' @ [CHR 0xC3, CHR 0xA9] @ ''-visualiza'' @
     [CHR 0xC3, CHR 0xA7, CHR 0xC3, CHR 0xA3] @ ''o do arquivo:''"

definition msg_missing_column :: string where
  "msg_missing_column = ''O arquivo deve conter uma coluna chamada '' @ [CHR 0x27] @
     ''SMILES'' @ [CHR 0x27] @ ''.''"

definition msg_loaded :: string where
  "msg_loaded = ''Arquivo carregado com sucesso!''"

definition msg_processing :: string where
  "msg_processing = ''Processando mol'' @ [CHR 0xC3, CHR 0xA9] @ ''culas...''"

definition msg_no_valid :: string where
  "msg_no_valid = ''Nenhuma mol'' @ [CHR 0xC3, CHR 0xA9] @ ''cula v'' @
     [CHR 0xC3, CHR 0xA1] @ ''lida encontrada no arquivo.''"

definition msg_processed :: string where
  "msg_processed = ''Mol'' @ [CHR 0xC3, CHR 0xA9] @ ''culas processadas com sucesso!''"

definition msg_predicting :: string where
  "msg_predicting = ''Realizando predi'' @ [CHR 0xC3, CHR 0xA7, CHR 0xC3, CHR 0xB5] @
     ''es de bioatividade...''"

definition msg_done :: string where
  "msg_done = ''Predi'' @ [CHR 0xC3, CHR 0xA7, CHR 0xC3, CHR 0xB5] @ ''es conclu'' @
     [CHR 0xC3, CHR 0xAD] @ ''das!''"

definition msg_results :: string where
  "msg_results = ''Resultados:''"

definition msg_distribution :: string where
  "msg_distribution = ''Distribui'' @ [CHR 0xC3, CHR 0xA7, CHR 0xC3, CHR 0xA3] @
     ''o das predi'' @ [CHR 0xC3, CHR 0xA7, CHR 0xC3, CHR 0xB5] @ ''es:''"

definition download_label :: string where
  "download_label = [CHR 0xF0, CHR 0x9F, CHR 0x93, CHR 0xA5] @ '' Baixar Predi'' @
     [CHR 0xC3, CHR 0xA7, CHR 0xC3, CHR 0xB5] @ ''es''"

definition hist_title :: string where
  "hist_title = ''Distribui'' @ [CHR 0xC3, CHR 0xA7, CHR 0xC3, CHR 0xA3] @
     ''o de Bioatividade''"

section \<open>Tables\<close>

text \<open>
  A pandas table: the row labels and the columns in their order, each column a label
  with its cells. \<^verbatim>\<open>pd.read_csv\<close> delivers tables whose column labels are pairwise
  distinct (it renames repeated headers) and whose columns all have one cell per row;
  \<open>wf_frame\<close> says so.
\<close>

record 'n frame =
  index :: "nat list"
  cols :: "(string \<times> 'n cell list) list"

definition columns :: "'n frame \<Rightarrow> string list" where
  "columns df = map fst (cols df)"

definition wf_frame :: "'n frame \<Rightarrow> bool" where
  "wf_frame df \<longleftrightarrow>
     distinct (columns df) \<and> list_all (\<lambda>kv. length (snd kv) = length (index df)) (cols df)"

text \<open>\<^verbatim>\<open>df[c]\<close> for one label.\<close>

definition getitem :: "'n frame \<Rightarrow> string \<Rightarrow> error + 'n cell list" where
  "getitem df c = (case map_of (cols df) c of None \<Rightarrow> Inl (KeyError [c]) | Some vs \<Rightarrow> Inr vs)"

text \<open>
  \<^verbatim>\<open>series.apply(f)\<close>: the function is called on the cells from the first to the last,
  and the first exception ends the loop.
\<close>

fun apply_series :: "('a \<Rightarrow> error + 'b) \<Rightarrow> 'a list \<Rightarrow> error + 'b list" where
  "apply_series f [] = Inr []"
| "apply_series f (x # xs) =
     (case f x of
        Inl err \<Rightarrow> Inl err
      | Inr y \<Rightarrow> (case apply_series f xs of Inl err \<Rightarrow> Inl err | Inr ys \<Rightarrow> Inr (y # ys)))"

text \<open>
  \<^verbatim>\<open>df[c] = values\<close>: an existing column is replaced where it stands, a new one is
  appended; values that are not one per row are refused.
\<close>

definition setitem :: "'n frame \<Rightarrow> string \<Rightarrow> 'n cell list \<Rightarrow> error + 'n frame" where
  "setitem df c vs =
     (if length vs \<noteq> length (index df) then Inl ValueError
      else if c \<in> set (columns df)
      then Inr (df\<lparr>cols := map (\<lambda>kv. if fst kv = c then (c, vs) else kv) (cols df)\<rparr>)
      else Inr (df\<lparr>cols := cols df @ [(c, vs)]\<rparr>))"

text \<open>\<^verbatim>\<open>df.dropna(subset=[c])\<close>: the rows whose cell in column \<open>c\<close> is missing go.\<close>

definition isna :: "'n cell \<Rightarrow> bool" where
  "isna v = (case v of NaN \<Rightarrow> True | _ \<Rightarrow> False)"

definition keep_mask :: "bool list \<Rightarrow> 'a list \<Rightarrow> 'a list" where
  "keep_mask bs xs = map snd (filter fst (zip bs xs))"

definition dropna :: "'n frame \<Rightarrow> string \<Rightarrow> error + 'n frame" where
  "dropna df c =
     (case map_of (cols df) c of
        None \<Rightarrow> Inl (KeyError [c])
      | Some vs \<Rightarrow>
          (let notna = map (\<lambda>v. \<not> isna v) vs
           in Inr \<lparr>index = keep_mask notna (index df),
                   cols = map (\<lambda>kv. (fst kv, keep_mask notna (snd kv))) (cols df)\<rparr>))"

text \<open>\<^verbatim>\<open>df.empty\<close>: no rows or no columns.\<close>

definition empty_frame :: "'n frame \<Rightarrow> bool" where
  "empty_frame df \<longleftrightarrow> index df = [] \<or> cols df = []"

text \<open>\<^verbatim>\<open>df[[c1, ..., ck]]\<close>: the named columns in the order asked for.\<close>

definition getitem_list :: "'n frame \<Rightarrow> string list \<Rightarrow> error + 'n frame" where
  "getitem_list df key =
     (case filter (\<lambda>k. k \<notin> set (columns df)) key of
        [] \<Rightarrow> Inr \<lparr>index = index df,
                   cols = map (\<lambda>k. (k, case map_of (cols df) k of Some vs \<Rightarrow> vs | None \<Rightarrow> [])) key\<rparr>
      | missing \<Rightarrow> Inl (KeyError missing))"

text \<open>\<^verbatim>\<open>df.head()\<close>: the first five rows.\<close>

definition head :: "'n frame \<Rightarrow> 'n frame" where
  "head df = \<lparr>index = take 5 (index df), cols = map (\<lambda>kv. (fst kv, take 5 (snd kv))) (cols df)\<rparr>"

text \<open>
  \<^verbatim>\<open>df.to_csv(index=False)\<close>: a header line with the column labels, then one record per
  row, in the order of the rows. The document is kept as fields; the characters written
  for a number are the library's matter.
\<close>

record 'n csv =
  header :: "string list"
  records :: "'n cell list list"

definition to_csv :: "'n frame \<Rightarrow> 'n csv" where
  "to_csv df =
     \<lparr>header = columns df,
      records = map (\<lambda>i. map (\<lambda>kv. snd kv ! i) (cols df)) [0..<length (index df)]\<rparr>"

section \<open>The feature table\<close>

text \<open>
  \<^verbatim>\<open>series.tolist()\<close> of the fingerprint column, as the rows handed to the table
  constructor. The column is written by \<open>apply_series\<close> over the encoder and holds lists
  only; a cell of another kind is refused.
\<close>

fun tolist :: "'n cell list \<Rightarrow> error + int list list" where
  "tolist [] = Inr []"
| "tolist (FpList v # cs) = (case tolist cs of Inl err \<Rightarrow> Inl err | Inr vs \<Rightarrow> Inr (v # vs))"
| "tolist (_ # cs) = Inl ValueError"

text \<open>
  \<^verbatim>\<open>pd.DataFrame(rows, columns=names)\<close>: rows wider or narrower than the list of
  names are refused with \<open>ValueError\<close>. (pandas would pad a narrower row when another
  row has the full width; the rows here come from the encoder, which returns 1024
  entries every time, see \<open>apply_encoder_widths\<close>.)
\<close>

definition DataFrame :: "int list list \<Rightarrow> string list \<Rightarrow> error + matrix" where
  "DataFrame data names =
     (if list_all (\<lambda>r. length r = length names) data
      then Inr \<lparr>mcolumns = names, mrows = data\<rparr> else Inl ValueError)"

text \<open>Python's \<^verbatim>\<open>str(i)\<close> for a natural number: its decimal digits.\<close>

definition digit_char :: "nat \<Rightarrow> char" where
  "digit_char d = ''0123456789'' ! d"

function str :: "nat \<Rightarrow> string" where
  "str n = (if n < 10 then [digit_char n] else str (n div 10) @ [digit_char (n mod 10)])"
  by pat_completeness auto
termination
  by (relation "measure id") auto

text \<open>\<^verbatim>\<open>X.columns = [str(i) for i in range(X.shape[1])]\<close>\<close>

definition set_columns :: "matrix \<Rightarrow> string list \<Rightarrow> error + matrix" where
  "set_columns X names =
     (if length names = length (mcolumns X) then Inr (X\<lparr>mcolumns := names\<rparr>) else Inl ValueError)"

text \<open>
  \<^verbatim>\<open>X[key]\<close> for a list of labels: pandas turns the labels into positions, raises
  \<open>KeyError\<close> with the labels it did not find, and otherwise takes the positions from
  every row. The labels of \<open>X\<close> are \<^verbatim>\<open>str(0)\<close> to \<^verbatim>\<open>str(1023)\<close>, pairwise
  distinct (\<open>distinct_str_labels\<close>), so a label has one position.
\<close>

fun get_loc :: "string list \<Rightarrow> string \<Rightarrow> nat" where
  "get_loc [] k = 0"
| "get_loc (c # cs) k = (if c = k then 0 else Suc (get_loc cs k))"

definition get_indexer_strict :: "string list \<Rightarrow> string list \<Rightarrow> error + nat list" where
  "get_indexer_strict labels key =
     (case filter (\<lambda>k. k \<notin> set labels) key of
        [] \<Rightarrow> Inr (map (get_loc labels) key)
      | missing \<Rightarrow> Inl (KeyError missing))"

definition take_columns :: "nat list \<Rightarrow> int list \<Rightarrow> int list" where
  "take_columns indexer row = map (\<lambda>i. row ! i) indexer"

definition select :: "matrix \<Rightarrow> string list \<Rightarrow> error + matrix" where
  "select X key =
     (case get_indexer_strict (mcolumns X) key of
        Inl err \<Rightarrow> Inl err
      | Inr indexer \<Rightarrow> Inr \<lparr>mcolumns = key, mrows = map (take_columns indexer) (mrows X)\<rparr>)"


section \<open>The script\<close>

text \<open>
  What the page shows, in the order of the calls. \<open>St_exception err\<close> is
  \<^verbatim>\<open>st.error(f"Ocorreu um erro: {e}")\<close> of the handler at the end of the script;
  \<open>St_plotly_chart df x title\<close> is the histogram of column \<open>x\<close> of \<open>df\<close>;
  \<open>St_download_button label data file_name mime\<close> offers \<open>data\<close> for download.
\<close>

datatype 'n ui =
    St_success string
  | St_error string
  | St_exception error
  | St_write string
  | St_spinner string
  | St_dataframe "'n frame"
  | St_plotly_chart "'n frame" string string
  | St_download_button string "'n csv" string string

text \<open>Sequencing of steps that may raise.\<close>

definition and_then :: "error + 'a \<Rightarrow> ('a \<Rightarrow> error + 'b) \<Rightarrow> error + 'b" where
  "and_then r f = (case r of Inl err \<Rightarrow> Inl err | Inr x \<Rightarrow> f x)"

text \<open>\<^verbatim>\<open>load_example_data()\<close>\<close>

definition load_example_data :: "'n frame" where
  "load_example_data =
     \<lparr>index = [0, 1, 2, 3, 4],
      cols = [(col_SMILES,
               [Str ''CCO'', Str ''CCCC'', Str ''CC(=O)O'', Str ''CCN(CC)CC'', Str ''CC(C)O''])]\<rparr>"

text \<open>
  Lines 98 to 115: the table to work on. \<open>use_example\<close> is the checkbox;
  \<open>uploaded_file\<close> is \<open>None\<close> while nothing is uploaded and otherwise the table that
  \<^verbatim>\<open>pd.read_csv\<close> made of the file. The result is what is shown and the value of
  \<^verbatim>\<open>molecules_df\<close>.
\<close>

definition load_stage :: "bool \<Rightarrow> 'n frame option \<Rightarrow> 'n ui list \<times> 'n frame option" where
  "load_stage use_example uploaded_file =
     (if use_example
      then ([St_success msg_example_loaded, St_write msg_preview, St_dataframe load_example_data],
            Some load_example_data)
      else (case uploaded_file of
              Some molecules_df \<Rightarrow>
                (if col_SMILES \<notin> set (columns molecules_df)
                 then ([St_error msg_missing_column], None)
                 else ([St_success msg_loaded, St_write msg_preview,
                        St_dataframe (head molecules_df)], Some molecules_df))
            | None \<Rightarrow> ([], None)))"

text \<open>
  Lines 121 to 124: the fingerprint column is computed and stored, then the rows with a
  missing fingerprint are dropped. The result is \<^verbatim>\<open>valid_molecules\<close>.
\<close>

definition fingerprint_stage :: "('m, 'n) env \<Rightarrow> 'n frame \<Rightarrow> error + 'n frame" where
  "fingerprint_stage e molecules_df =
     and_then (getitem molecules_df col_SMILES) (\<lambda>smiles.
     and_then (apply_series (compute_morgan_fingerprint e) smiles) (\<lambda>fps.
     and_then (setitem molecules_df col_Fingerprint (map FpList fps)) (\<lambda>molecules_df'.
     dropna molecules_df' col_Fingerprint)))"

text \<open>Lines 131 to 133: the feature table and the selection of the reduced columns.\<close>

definition feature_stage :: "('m, 'n) env \<Rightarrow> 'n frame \<Rightarrow> error + matrix" where
  "feature_stage e valid_molecules =
     and_then (getitem valid_molecules col_Fingerprint) (\<lambda>fingerprints.
     and_then (tolist fingerprints) (\<lambda>data.
     and_then (DataFrame data (map (\<lambda>i. ''morgan_fp_'' @ str i) [0..<1024])) (\<lambda>X.
     and_then (set_columns X (map str [0..<length (mcolumns X)])) (\<lambda>X'.
     select X' (reduced_columns e)))))"

text \<open>Lines 137 and 138: the predictions, stored as a column.\<close>

definition predict_stage :: "('m, 'n) env \<Rightarrow> matrix \<Rightarrow> 'n frame \<Rightarrow> error + 'n frame" where
  "predict_stage e X_reduced valid_molecules =
     and_then (model_predict e X_reduced) (\<lambda>predictions.
     setitem valid_molecules col_prediction (map Num predictions))"

text \<open>Lines 141 to 157: the result table, the histogram and the download.\<close>

definition report :: "'n frame \<Rightarrow> 'n ui list" where
  "report valid_molecules =
     [St_success msg_done, St_write msg_results] @
     (case getitem_list valid_molecules [col_SMILES, col_prediction] of
        Inl err \<Rightarrow> [St_exception err]
      | Inr shown \<Rightarrow>
          [St_dataframe shown, St_write msg_distribution,
           St_plotly_chart valid_molecules col_prediction hist_title,
           St_download_button download_label (to_csv shown) ''predicoes.csv'' ''text/csv''])"

text \<open>
  Lines 117 to 159, for a table that is not \<open>None\<close>: the \<^verbatim>\<open>try\<close> block. What was
  shown before an exception stays on the page, and the handler adds its message.
\<close>

definition process :: "('m, 'n) env \<Rightarrow> 'n frame \<Rightarrow> 'n ui list" where
  "process e molecules_df =
     St_spinner msg_processing #
     (case fingerprint_stage e molecules_df of
        Inl err \<Rightarrow> [St_exception err]
      | Inr valid_molecules \<Rightarrow>
          (if empty_frame valid_molecules then [St_error msg_no_valid]
           else St_success msg_processed #
             (case feature_stage e valid_molecules of
                Inl err \<Rightarrow> [St_exception err]
              | Inr X_reduced \<Rightarrow>
                  St_write msg_predicting #
                  (case predict_stage e X_reduced valid_molecules of
                     Inl err \<Rightarrow> [St_exception err]
                   | Inr valid_molecules' \<Rightarrow> report valid_molecules'))))"

text \<open>One run of the script.\<close>

definition app :: "('m, 'n) env \<Rightarrow> bool \<Rightarrow> 'n frame option \<Rightarrow> 'n ui list" where
  "app e use_example uploaded_file =
     (case load_stage use_example uploaded_file of
        (shown, None) \<Rightarrow> shown
      | (shown, Some molecules_df) \<Rightarrow> shown @ process e molecules_df)"

text \<open>Readers of the page: the downloads offered, and the tables handed to the chart.\<close>

fun downloads :: "'n ui list \<Rightarrow> 'n csv list" where
  "downloads [] = []"
| "downloads (St_download_button l d f m # us) = d # downloads us"
| "downloads (_ # us) = downloads us"

fun charted :: "'n ui list \<Rightarrow> 'n frame list" where
  "charted [] = []"
| "charted (St_plotly_chart df x t # us) = df # charted us"
| "charted (_ # us) = charted us"

text \<open>The tables shown with \<^verbatim>\<open>st.dataframe\<close>, in the order of the calls.\<close>

fun displayed :: "'n ui list \<Rightarrow> 'n frame list" where
  "displayed [] = []"
| "displayed (St_dataframe df # us) = df # displayed us"
| "displayed (_ # us) = displayed us"

section \<open>A small deployment for worked examples\<close>

text \<open>
  The examples below run the script with a stand-in for the library: a parser that
  accepts the non-empty strings over the letters of the bundled example molecules, the
  character codes of the string as substructure hashes, a reduced feature set of three
  columns, and a model that adds up the selected features.
\<close>

definition demo_parser :: "string \<Rightarrow> string option" where
  "demo_parser s = (if s \<noteq> [] \<and> set s \<subseteq> set ''CNO()='' then Some s else None)"

definition demo_env :: "(string, int) env" where
  "demo_env =
     \<lparr>MolFromSmiles = demo_parser,
      atom_env_hashes = (\<lambda>r mol. map (\<lambda>c. of_char c + r) mol),
      reduced_columns = [''3'', ''0'', ''1023''],
      model_predict = (\<lambda>X. Inr (map sum_list (mrows X)))\<rparr>"

text \<open>
  Uploads: two strings that are no molecules; a table whose only column is spelled
  in lower case; a table that brings a \<^verbatim>\<open>Fingerprint\<close> column and a \<^verbatim>\<open>note\<close>
  column of its own; the table that \<^verbatim>\<open>pd.read_csv\<close> makes of a file with the lines
  \<^verbatim>\<open>SMILES\<close>, \<^verbatim>\<open>1\<close> and \<^verbatim>\<open>2\<close>, whose cells are numbers; a table with a
  blank \<^verbatim>\<open>SMILES\<close> cell, which \<^verbatim>\<open>pd.read_csv\<close> reads as NaN. The second deployment has a reduced feature set
  that names a column the feature table does not have.
\<close>

definition demo_unparseable :: "int frame" where
  "demo_unparseable =
     \<lparr>index = [0, 1], cols = [(''SMILES'', [Str ''xyz'', Str ''not a molecule''])]\<rparr>"

definition demo_lowercase :: "int frame" where
  "demo_lowercase = \<lparr>index = [0], cols = [(''smiles'', [Str ''CCO''])]\<rparr>"

definition demo_mislabelled_env :: "(string, int) env" where
  "demo_mislabelled_env = demo_env\<lparr>reduced_columns := [''0'', ''morgan_fp_1'']\<rparr>"

definition demo_extra :: "int frame" where
  "demo_extra =
     \<lparr>index = [0],
      cols = [(''SMILES'', [Str ''xyz'']), (''Fingerprint'', [Str ''mine'']),
              (''note'', [Str ''keep me''])]\<rparr>"

definition demo_numbers :: "int frame" where
  "demo_numbers = \<lparr>index = [0, 1], cols = [(''SMILES'', [Num 1, Num 2])]\<rparr>"


section \<open>Properties of the encoder\<close>

lemma length_list_of_fp: "length (list_of_fp fp) = length fp"
  by (simp add: list_of_fp_def)

lemma length_GetFingerprint: "length (GetFingerprint e g mol) = fpSize g"
  by (simp add: GetFingerprint_def)

lemma list_of_fp_bits: "x \<in> set (list_of_fp fp) \<Longrightarrow> x = 0 \<or> x = 1"
  by (auto simp: list_of_fp_def)

lemma fpSize_morgan_gen: "fpSize morgan_gen = 1024"
  by (simp add: morgan_gen_def)

text \<open>
  On a string the encoder never raises, and what it returns has 1024 entries, each 0
  or 1. This is the shape fact the rest of the development uses.
\<close>

lemma compute_morgan_fingerprint_Str:
  "\<exists>v. compute_morgan_fingerprint e (Str s) = Inr v \<and> length v = 1024 \<and> set v \<subseteq> {0, 1}"
proof (cases "MolFromSmiles e s")
  case None
  then show ?thesis
    by (auto simp: compute_morgan_fingerprint_def)
next
  case (Some mol)
  have "length (list_of_fp (GetFingerprint e morgan_gen mol)) = 1024"
    by (simp add: length_list_of_fp length_GetFingerprint fpSize_morgan_gen)
  moreover have "set (list_of_fp (GetFingerprint e morgan_gen mol)) \<subseteq> {0, 1}"
    using list_of_fp_bits by fastforce
  ultimately show ?thesis
    using Some by (simp add: compute_morgan_fingerprint_def)
qed

section \<open>Properties of the column selection\<close>

declare str.simps [simp del]

lemma get_loc_less: "k \<in> set cs \<Longrightarrow> get_loc cs k < length cs"
  by (induction cs) auto

lemma nth_get_loc: "k \<in> set cs \<Longrightarrow> cs ! get_loc cs k = k"
  by (induction cs) auto


lemma get_indexer_strict_present:
  "set key \<subseteq> set labels \<Longrightarrow> get_indexer_strict labels key = Inr (map (get_loc labels) key)"
proof -
  assume "set key \<subseteq> set labels"
  then have "filter (\<lambda>k. k \<notin> set labels) key = []"
    by (auto simp: filter_empty_conv)
  then show ?thesis by (simp add: get_indexer_strict_def)
qed

lemma get_indexer_strict_missing:
  "\<not> set key \<subseteq> set labels \<Longrightarrow>
   get_indexer_strict labels key = Inl (KeyError (filter (\<lambda>k. k \<notin> set labels) key))"
proof -
  assume "\<not> set key \<subseteq> set labels"
  then have "filter (\<lambda>k. k \<notin> set labels) key \<noteq> []"
    by (auto simp: filter_empty_conv)
  then show ?thesis by (auto simp: get_indexer_strict_def split: list.splits)
qed

lemma select_present:
  "set key \<subseteq> set (mcolumns X) \<Longrightarrow>
   select X key = Inr \<lparr>mcolumns = key, mrows = map (take_columns (map (get_loc (mcolumns X)) key)) (mrows X)\<rparr>"
  by (simp add: select_def get_indexer_strict_present)

lemma select_missing:
  "\<not> set key \<subseteq> set (mcolumns X) \<Longrightarrow>
   select X key = Inl (KeyError (filter (\<lambda>k. k \<notin> set (mcolumns X)) key))"
  by (simp add: select_def get_indexer_strict_missing)

text \<open>\<open>str\<close> is injective, so the labels \<^verbatim>\<open>[str(i) for i in range(n)]\<close> are pairwise distinct.\<close>

lemma digit_char_inj: "a < 10 \<Longrightarrow> b < 10 \<Longrightarrow> digit_char a = digit_char b \<Longrightarrow> a = b"
proof -
  assume a: "a < 10" and b: "b < 10" and eq: "digit_char a = digit_char b"
  have "distinct ''0123456789''" by simp
  moreover have "a < length ''0123456789''" "b < length ''0123456789''"
    using a b by simp_all
  ultimately show ?thesis
    using eq unfolding digit_char_def by (simp only: nth_eq_iff_index_eq)
qed

lemma str_nonempty: "str n \<noteq> []"
  by (subst str.simps) simp

lemma str_inj: "str m = str n \<Longrightarrow> m = n"
proof (induction m arbitrary: n rule: str.induct)
  case (1 m)
  show ?case
  proof (cases "m < 10")
    case True
    note m = this
    show ?thesis
    proof (cases "n < 10")
      case True
      with m 1(2) show ?thesis
        by (simp add: str.simps [of m] str.simps [of n] digit_char_inj)
    next
      case False
      with m 1(2) str_nonempty [of "n div 10"] show ?thesis
        by (simp add: str.simps [of m] str.simps [of n])
    qed
  next
    case False
    note m = this
    show ?thesis
    proof (cases "n < 10")
      case True
      with m 1(2) str_nonempty [of "m div 10"] show ?thesis
        by (simp add: str.simps [of m] str.simps [of n])
    next
      case False
      with m 1(2) have eq: "str (m div 10) = str (n div 10)" "digit_char (m mod 10) = digit_char (n mod 10)"
        by (simp_all add: str.simps [of m] str.simps [of n])
      from 1(1) [OF m eq(1)] have "m div 10 = n div 10" .
      moreover from eq(2) have "m mod 10 = n mod 10"
        by (intro digit_char_inj) simp_all
      ultimately show ?thesis
        by (metis div_mult_mod_eq)
    qed
  qed
qed

section \<open>Properties of the table operations\<close>

lemma and_then_Inr [simp]: "and_then (Inr x) f = f x"
  by (simp add: and_then_def)

lemma and_then_Inl [simp]: "and_then (Inl err) f = Inl err"
  by (simp add: and_then_def)

lemma and_then_eq_Inr:
  "and_then r f = Inr y \<longleftrightarrow> (\<exists>x. r = Inr x \<and> f x = Inr y)"
  by (cases r) simp_all

lemma apply_series_Inr:
  "apply_series f xs = Inr ys \<longleftrightarrow> list_all2 (\<lambda>x y. f x = Inr y) xs ys"
proof (induction xs arbitrary: ys)
  case Nil
  then show ?case by auto
next
  case (Cons x xs)
  show ?case
  proof (cases ys)
    case Nil
    then show ?thesis by (auto split: sum.splits)
  next
    case (Cons y ys')
    with Cons.IH [of ys'] show ?thesis by (auto split: sum.splits)
  qed
qed

lemma apply_series_length: "apply_series f xs = Inr ys \<Longrightarrow> length ys = length xs"
  by (simp add: apply_series_Inr list_all2_lengthD)

lemma apply_series_Inl:
  "apply_series f xs = Inl err \<Longrightarrow> \<exists>x \<in> set xs. f x = Inl err"
  by (induction xs) (auto split: sum.splits)


lemma keep_mask_all: "length xs = n \<Longrightarrow> keep_mask (replicate n True) xs = xs"
proof (induction xs arbitrary: n)
  case Nil
  then show ?case by (simp add: keep_mask_def)
next
  case (Cons x xs)
  then obtain m where "n = Suc m" by (cases n) auto
  with Cons show ?case by (simp add: keep_mask_def)
qed

lemma map_notna_all:
  "list_all (\<lambda>v. \<not> isna v) vs \<Longrightarrow> map (\<lambda>v. \<not> isna v) vs = replicate (length vs) True"
  by (induction vs) auto

lemma wf_frame_column_length:
  "wf_frame df \<Longrightarrow> map_of (cols df) c = Some vs \<Longrightarrow> length vs = length (index df)"
proof -
  assume wf: "wf_frame df" and col: "map_of (cols df) c = Some vs"
  from col have "(c, vs) \<in> set (cols df)" by (rule map_of_SomeD)
  with wf show ?thesis by (fastforce simp: wf_frame_def list_all_iff)
qed

lemma dropna_nothing_missing:
  assumes wf: "wf_frame df" and col: "map_of (cols df) c = Some vs"
    and notna: "list_all (\<lambda>v. \<not> isna v) vs"
  shows "dropna df c = Inr df"
proof -
  let ?n = "length (index df)"
  have n: "length vs = ?n"
    using wf col by (rule wf_frame_column_length)
  have m: "map (\<lambda>v. \<not> isna v) vs = replicate ?n True"
    using map_notna_all [OF notna] n by simp
  have "map (\<lambda>kv. (fst kv, keep_mask (replicate ?n True) (snd kv))) (cols df) = cols df"
    using wf by (intro map_idI) (auto simp: wf_frame_def list_all_iff keep_mask_all)
  then show ?thesis
    by (simp add: dropna_def col m keep_mask_all)
qed

lemma distinct_str_labels: "distinct (map str [0..<n])"
  by (simp add: distinct_map inj_on_def str_inj)

lemma str_label_present: "i < n \<Longrightarrow> str i \<in> set (map str [0..<n])"
  by simp



lemma take_columns_zeros:
  "list_all (\<lambda>i. i < n) indexer \<Longrightarrow>
   take_columns indexer (replicate n 0) = replicate (length indexer) 0"
  by (induction indexer) (simp_all add: take_columns_def)

lemma get_loc_indexer_bound:
  "set key \<subseteq> set labels \<Longrightarrow> list_all (\<lambda>i. i < length labels) (map (get_loc labels) key)"
  by (auto simp: list_all_iff get_loc_less)

lemma demo_columns_present: "set (reduced_columns demo_env) \<subseteq> set (map str [0..<1024])"
proof -
  have "str 3 = ''3''" "str 0 = ''0''" "str 1023 = ''1023''"
    by (simp_all add: str.simps digit_char_def)
  moreover have "str 3 \<in> set (map str [0..<1024])" "str 0 \<in> set (map str [0..<1024])"
    "str 1023 \<in> set (map str [0..<1024])"
    by (rule str_label_present, simp)+
  ultimately show ?thesis
    by (simp add: demo_env_def)
qed

section \<open>Properties of column assignment\<close>

lemma map_of_replace_column_same:
  "c \<in> fst ` set xs \<Longrightarrow>
   map_of (map (\<lambda>kv. if fst kv = c then (c, vs) else kv) xs) c = Some vs"
  by (induction xs) force+

lemma map_of_replace_column_other:
  "c' \<noteq> c \<Longrightarrow>
   map_of (map (\<lambda>kv. if fst kv = c then (c, vs) else kv) xs) c' = map_of xs c'"
  by (induction xs) auto

lemma columns_replace_column:
  "map fst (map (\<lambda>kv. if fst kv = c then (c, vs) else kv) xs) = map fst xs"
  by (induction xs) auto

lemma setitem_Inr:
  "length vs = length (index df) \<Longrightarrow> \<exists>df'. setitem df c vs = Inr df'"
  by (simp add: setitem_def)

lemma setitem_Inl:
  "setitem df c vs = Inl err \<Longrightarrow> length vs \<noteq> length (index df) \<and> err = ValueError"
  by (auto simp: setitem_def split: if_splits)

lemma setitem_length:
  "setitem df c vs = Inr df' \<Longrightarrow> length vs = length (index df)"
  by (auto simp: setitem_def split: if_splits)

lemma setitem_index: "setitem df c vs = Inr df' \<Longrightarrow> index df' = index df"
  by (auto simp: setitem_def split: if_splits)

lemma setitem_cases:
  assumes "setitem df c vs = Inr df'"
  obtains (replaced) "c \<in> set (columns df)"
      "cols df' = map (\<lambda>kv. if fst kv = c then (c, vs) else kv) (cols df)"
    | (appended) "c \<notin> set (columns df)" "cols df' = cols df @ [(c, vs)]"
  using assms by (cases "c \<in> set (columns df)") (auto simp: setitem_def split: if_splits)

lemma setitem_column: "setitem df c vs = Inr df' \<Longrightarrow> map_of (cols df') c = Some vs"
proof (erule setitem_cases)
  assume "c \<in> set (columns df)"
    and "cols df' = map (\<lambda>kv. if fst kv = c then (c, vs) else kv) (cols df)"
  then show ?thesis
    by (simp add: columns_def map_of_replace_column_same)
next
  assume absent: "c \<notin> set (columns df)" and app: "cols df' = cols df @ [(c, vs)]"
  from absent have "map_of (cols df) c = None"
    by (simp add: columns_def map_of_eq_None_iff)
  with app show ?thesis
    by (simp add: map_add_def)
qed

lemma setitem_other_columns:
  "setitem df c vs = Inr df' \<Longrightarrow> c' \<noteq> c \<Longrightarrow> map_of (cols df') c' = map_of (cols df) c'"
proof (erule setitem_cases)
  assume "c' \<noteq> c"
    and "cols df' = map (\<lambda>kv. if fst kv = c then (c, vs) else kv) (cols df)"
  then show ?thesis
    by (simp add: map_of_replace_column_other)
next
  assume "c' \<noteq> c" and "cols df' = cols df @ [(c, vs)]"
  then show ?thesis
    by (simp add: map_add_def split: option.splits)
qed

lemma setitem_columns:
  "setitem df c vs = Inr df' \<Longrightarrow>
   columns df' = (if c \<in> set (columns df) then columns df else columns df @ [c])"
  by (auto simp: setitem_def columns_def columns_replace_column split: if_splits)

lemma setitem_wf:
  assumes wf: "wf_frame df" and set: "setitem df c vs = Inr df'"
  shows "wf_frame df'"
proof -
  have len: "length vs = length (index df)"
    using set by (rule setitem_length)
  have idx: "index df' = index df"
    using set by (rule setitem_index)
  have d: "distinct (columns df')"
    using wf setitem_columns [OF set] by (auto simp: wf_frame_def)
  have "list_all (\<lambda>kv. length (snd kv) = length (index df)) (cols df')"
    using wf set len by (auto simp: setitem_def wf_frame_def list_all_iff split: if_splits)
  with d idx show ?thesis by (simp add: wf_frame_def)
qed

lemma setitem_nonempty: "setitem df c vs = Inr df' \<Longrightarrow> cols df' \<noteq> []"
  by (auto simp: setitem_def columns_def split: if_splits)

section \<open>Properties of the stages of the script\<close>

lemma compute_morgan_fingerprint_Inr:
  assumes "compute_morgan_fingerprint e c = Inr v"
  shows "(\<exists>s. c = Str s) \<and> length v = 1024 \<and> set v \<subseteq> {0, 1}"
proof (cases c)
  case (Str s)
  with assms compute_morgan_fingerprint_Str [of e s] show ?thesis by auto
qed (use assms in \<open>simp_all add: compute_morgan_fingerprint_def\<close>)

lemma compute_morgan_fingerprint_Inl:
  "compute_morgan_fingerprint e c = Inl err \<Longrightarrow> (\<forall>s. c \<noteq> Str s) \<and> err = TypeError"
  by (cases c) (auto simp: compute_morgan_fingerprint_def split: option.splits)

lemma apply_encoder_widths:
  assumes "apply_series (compute_morgan_fingerprint e) smiles = Inr fps"
  shows "list_all (\<lambda>v. length v = 1024) fps"
proof -
  from assms have "list_all2 (\<lambda>x y. compute_morgan_fingerprint e x = Inr y) smiles fps"
    by (simp add: apply_series_Inr)
  then have "\<forall>v \<in> set fps. \<exists>c. compute_morgan_fingerprint e c = Inr v"
    by (fastforce simp: list_all2_conv_all_nth in_set_conv_nth)
  then show ?thesis
    by (auto simp: list_all_iff dest: compute_morgan_fingerprint_Inr)
qed


lemma notna_FpList: "list_all (\<lambda>v. \<not> isna v) (map FpList fps)"
  by (simp add: list_all_iff isna_def)

lemma getitem_eq: "getitem df c = Inr vs \<longleftrightarrow> map_of (cols df) c = Some vs"
  by (simp add: getitem_def split: option.splits)

lemma getitem_present: "map_of (cols df) c = Some vs \<Longrightarrow> getitem df c = Inr vs"
  by (simp add: getitem_def)

text \<open>
  The filter of line 124 never removes a row: once the fingerprint column is stored it
  holds lists only, and the table comes back as it went in.
\<close>

lemma fingerprint_stage_Inr:
  assumes wf: "wf_frame df"
  shows "fingerprint_stage e df = Inr valid \<longleftrightarrow>
     (\<exists>smiles fps. map_of (cols df) col_SMILES = Some smiles \<and>
        apply_series (compute_morgan_fingerprint e) smiles = Inr fps \<and>
        setitem df col_Fingerprint (map FpList fps) = Inr valid)"
proof -
  have drop: "dropna df' col_Fingerprint = Inr df'"
    if "setitem df col_Fingerprint (map FpList fps) = Inr df'" for df' fps
    using setitem_wf [OF wf that] setitem_column [OF that] notna_FpList
    by (rule dropna_nothing_missing)
  show ?thesis
  proof
    assume "fingerprint_stage e df = Inr valid"
    then obtain smiles fps df' where
      s: "getitem df col_SMILES = Inr smiles"
      and a: "apply_series (compute_morgan_fingerprint e) smiles = Inr fps"
      and u: "setitem df col_Fingerprint (map FpList fps) = Inr df'"
      and d: "dropna df' col_Fingerprint = Inr valid"
      by (auto simp: fingerprint_stage_def and_then_eq_Inr)
    from drop [OF u] d have "valid = df'" by simp
    with s a u show "\<exists>smiles fps. map_of (cols df) col_SMILES = Some smiles \<and>
        apply_series (compute_morgan_fingerprint e) smiles = Inr fps \<and>
        setitem df col_Fingerprint (map FpList fps) = Inr valid"
      by (auto simp: getitem_eq)
  next
    assume "\<exists>smiles fps. map_of (cols df) col_SMILES = Some smiles \<and>
        apply_series (compute_morgan_fingerprint e) smiles = Inr fps \<and>
        setitem df col_Fingerprint (map FpList fps) = Inr valid"
    then obtain smiles fps where
      s: "map_of (cols df) col_SMILES = Some smiles"
      and a: "apply_series (compute_morgan_fingerprint e) smiles = Inr fps"
      and u: "setitem df col_Fingerprint (map FpList fps) = Inr valid"
      by blast
    with drop [OF u] show "fingerprint_stage e df = Inr valid"
      by (simp add: fingerprint_stage_def getitem_present)
  qed
qed

lemma fingerprint_stage_Inl:
  assumes wf: "wf_frame df" and s: "map_of (cols df) col_SMILES = Some smiles"
    and err: "fingerprint_stage e df = Inl err"
  shows "err = TypeError \<and> \<not> list_all (\<lambda>c. \<exists>s. c = Str s) smiles"
proof (cases "apply_series (compute_morgan_fingerprint e) smiles")
  case (Inl err')
  with s err have "err' = err"
    by (simp add: fingerprint_stage_def getitem_present)
  with apply_series_Inl [OF Inl] obtain c where "c \<in> set smiles"
    "compute_morgan_fingerprint e c = Inl err" by auto
  then show ?thesis
    by (auto simp: list_all_iff dest: compute_morgan_fingerprint_Inl)
next
  case (Inr fps)
  have "length (map FpList fps) = length (index df)"
    using apply_series_length [OF Inr] wf_frame_column_length [OF wf s] by simp
  then obtain df' where u: "setitem df col_Fingerprint (map FpList fps) = Inr df'"
    using setitem_Inr by blast
  with s Inr have "fingerprint_stage e df = Inr df'"
    using fingerprint_stage_Inr [OF wf] by blast
  with err show ?thesis by simp
qed

lemma tolist_FpList: "tolist (map FpList fps) = Inr fps"
  by (induction fps) simp_all

lemma feature_stage_select:
  assumes col: "map_of (cols valid) col_Fingerprint = Some (map FpList fps)"
    and widths: "list_all (\<lambda>v. length v = 1024) fps"
  shows "feature_stage e valid =
     select \<lparr>mcolumns = map str [0..<1024], mrows = fps\<rparr> (reduced_columns e)"
proof -
  have "DataFrame fps (map (\<lambda>i. ''morgan_fp_'' @ str i) [0..<1024]) =
      Inr \<lparr>mcolumns = map (\<lambda>i. ''morgan_fp_'' @ str i) [0..<1024], mrows = fps\<rparr>"
    using widths by (simp add: DataFrame_def)
  then show ?thesis
    by (simp add: feature_stage_def getitem_present [OF col] tolist_FpList set_columns_def)
qed

lemma column_names_differ:
  "col_SMILES \<noteq> col_Fingerprint" "col_SMILES \<noteq> col_prediction"
  "col_Fingerprint \<noteq> col_prediction"
  by (simp_all add: col_SMILES_def col_Fingerprint_def col_prediction_def)

lemma column_present: "map_of (cols df) c = Some vs \<Longrightarrow> c \<in> set (columns df)"
  by (auto simp: columns_def dest: map_of_SomeD intro: rev_image_eqI)

lemma nth_pairs_map2:
  "length xs = n \<Longrightarrow> length ys = n \<Longrightarrow>
   map (\<lambda>i. [xs ! i, ys ! i]) [0..<n] = map2 (\<lambda>x y. [x, y]) xs ys"
  by (rule nth_equalityI) simp_all

lemma getitem_list_two:
  assumes a: "map_of (cols df) a = Some xs" and b: "map_of (cols df) b = Some ys"
  shows "getitem_list df [a, b] = Inr \<lparr>index = index df, cols = [(a, xs), (b, ys)]\<rparr>"
  using column_present [OF a] column_present [OF b] a b
  by (simp add: getitem_list_def)

lemma to_csv_two:
  "to_csv \<lparr>index = idx, cols = [(a, xs), (b, ys)]\<rparr> =
     \<lparr>header = [a, b], records = map (\<lambda>i. [xs ! i, ys ! i]) [0..<length idx]\<rparr>"
  by (simp add: to_csv_def columns_def)

lemma report_shown:
  assumes s: "map_of (cols v) col_SMILES = Some smiles"
    and p: "map_of (cols v) col_prediction = Some preds"
  shows "report v =
     [St_success msg_done, St_write msg_results,
      St_dataframe \<lparr>index = index v, cols = [(col_SMILES, smiles), (col_prediction, preds)]\<rparr>,
      St_write msg_distribution,
      St_plotly_chart v col_prediction hist_title,
      St_download_button download_label
        \<lparr>header = [col_SMILES, col_prediction],
         records = map (\<lambda>i. [smiles ! i, preds ! i]) [0..<length (index v)]\<rparr>
        ''predicoes.csv'' ''text/csv'']"
  by (simp add: report_def getitem_list_two [OF s p] to_csv_two)

text \<open>The five ways through the \<^verbatim>\<open>try\<close> block.\<close>

lemma process_cases:
  obtains
    (fingerprint_error) err where "fingerprint_stage e df = Inl err"
      "process e df = [St_spinner msg_processing, St_exception err]"
  | (no_valid) valid where "fingerprint_stage e df = Inr valid" "empty_frame valid"
      "process e df = [St_spinner msg_processing, St_error msg_no_valid]"
  | (feature_error) valid err where "fingerprint_stage e df = Inr valid"
      "\<not> empty_frame valid" "feature_stage e valid = Inl err"
      "process e df = [St_spinner msg_processing, St_success msg_processed, St_exception err]"
  | (predict_error) valid X err where "fingerprint_stage e df = Inr valid"
      "\<not> empty_frame valid" "feature_stage e valid = Inr X"
      "predict_stage e X valid = Inl err"
      "process e df = [St_spinner msg_processing, St_success msg_processed,
         St_write msg_predicting, St_exception err]"
  | (reported) valid X valid' where "fingerprint_stage e df = Inr valid"
      "\<not> empty_frame valid" "feature_stage e valid = Inr X"
      "predict_stage e X valid = Inr valid'"
      "process e df = [St_spinner msg_processing, St_success msg_processed,
         St_write msg_predicting] @ report valid'"
proof (cases "fingerprint_stage e df")
  case (Inl err)
  then show ?thesis by (intro fingerprint_error [of err]) (simp_all add: process_def)
next
  case valid: (Inr valid)
  show ?thesis
  proof (cases "empty_frame valid")
    case True
    with valid show ?thesis by (intro no_valid [of valid]) (simp_all add: process_def)
  next
    case nonempty: False
    show ?thesis
    proof (cases "feature_stage e valid")
      case (Inl err)
      with valid nonempty show ?thesis
        by (intro feature_error [of valid err]) (simp_all add: process_def)
    next
      case X: (Inr X)
      show ?thesis
      proof (cases "predict_stage e X valid")
        case (Inl err)
        with valid nonempty X show ?thesis
          by (intro predict_error [of valid X err]) (simp_all add: process_def)
      next
        case (Inr valid')
        with valid nonempty X show ?thesis
          by (intro reported [of valid X valid']) (simp_all add: process_def)
      qed
    qed
  qed
qed

lemma predict_stage_Inr:
  "predict_stage e X valid = Inr valid' \<longleftrightarrow>
     (\<exists>ps. model_predict e X = Inr ps \<and> setitem valid col_prediction (map Num ps) = Inr valid')"
  by (simp add: predict_stage_def and_then_eq_Inr)

text \<open>
  What the working table holds when the predictions have been stored: the rows of the
  upload, its own \<^verbatim>\<open>SMILES\<close> column, and the two columns the script writes.
\<close>

lemma reported_table:
  assumes wf: "wf_frame df"
    and f: "fingerprint_stage e df = Inr valid"
    and p: "predict_stage e X valid = Inr valid'"
  obtains smiles fps ps where
    "map_of (cols df) col_SMILES = Some smiles"
    "apply_series (compute_morgan_fingerprint e) smiles = Inr fps"
    "model_predict e X = Inr ps"
    "length smiles = length (index df)" "length fps = length (index df)"
    "length ps = length (index df)"
    "index valid = index df" "index valid' = index df"
    "wf_frame valid" "wf_frame valid'"
    "map_of (cols valid) col_SMILES = Some smiles"
    "map_of (cols valid) col_Fingerprint = Some (map FpList fps)"
    "map_of (cols valid') col_SMILES = Some smiles"
    "map_of (cols valid') col_Fingerprint = Some (map FpList fps)"
    "map_of (cols valid') col_prediction = Some (map Num ps)"
    "setitem df col_Fingerprint (map FpList fps) = Inr valid"
    "setitem valid col_prediction (map Num ps) = Inr valid'"
proof -
  from f obtain smiles fps where
    s: "map_of (cols df) col_SMILES = Some smiles"
    and a: "apply_series (compute_morgan_fingerprint e) smiles = Inr fps"
    and u: "setitem df col_Fingerprint (map FpList fps) = Inr valid"
    using fingerprint_stage_Inr [OF wf] by blast
  from p obtain ps where
    m: "model_predict e X = Inr ps"
    and u': "setitem valid col_prediction (map Num ps) = Inr valid'"
    using predict_stage_Inr by blast
  note d = column_names_differ
  have wfv: "wf_frame valid" using wf u by (rule setitem_wf)
  have wfv': "wf_frame valid'" using wfv u' by (rule setitem_wf)
  have iv: "index valid = index df" using u by (rule setitem_index)
  have iv': "index valid' = index df" using setitem_index [OF u'] iv by simp
  have ls: "length smiles = length (index df)" using wf s by (rule wf_frame_column_length)
  have lf: "length fps = length (index df)" using apply_series_length [OF a] ls by simp
  have lp: "length ps = length (index df)" using setitem_length [OF u'] iv by simp
  have vs: "map_of (cols valid) col_SMILES = Some smiles"
    using setitem_other_columns [OF u, of col_SMILES] d s by simp
  have vf: "map_of (cols valid) col_Fingerprint = Some (map FpList fps)"
    using u by (rule setitem_column)
  have vs': "map_of (cols valid') col_SMILES = Some smiles"
    using setitem_other_columns [OF u', of col_SMILES] d vs by simp
  have vf': "map_of (cols valid') col_Fingerprint = Some (map FpList fps)"
    using setitem_other_columns [OF u', of col_Fingerprint] d vf by simp
  have vp': "map_of (cols valid') col_prediction = Some (map Num ps)"
    using u' by (rule setitem_column)
  from s a m ls lf lp iv iv' wfv wfv' vs vf vs' vf' vp' u u' show ?thesis
    by (rule that)
qed

section \<open>Properties of a run\<close>

lemma downloads_append: "downloads (us @ vs) = downloads us @ downloads vs"
  by (induction us rule: downloads.induct) simp_all

lemma charted_append: "charted (us @ vs) = charted us @ charted vs"
  by (induction us rule: charted.induct) simp_all

lemma app_upload:
  "col_SMILES \<in> set (columns df) \<Longrightarrow>
   app e False (Some df) =
     [St_success msg_loaded, St_write msg_preview, St_dataframe (head df)] @ process e df"
  by (simp add: app_def load_stage_def)

lemma compute_morgan_fingerprint_None:
  "MolFromSmiles e s = None \<Longrightarrow> compute_morgan_fingerprint e (Str s) = Inr (replicate 1024 0)"
  by (simp add: compute_morgan_fingerprint_def)

lemma apply_encoder_unparseable:
  "list_all (\<lambda>c. \<exists>s. c = Str s \<and> MolFromSmiles e s = None) smiles \<Longrightarrow>
   apply_series (compute_morgan_fingerprint e) smiles =
     Inr (replicate (length smiles) (replicate 1024 0))"
  by (induction smiles) (auto simp: compute_morgan_fingerprint_None)

lemma select_zero_rows:
  assumes "set key \<subseteq> set (map str [0..<1024])"
  shows "select \<lparr>mcolumns = map str [0..<1024], mrows = replicate n (replicate 1024 0)\<rparr> key =
     Inr \<lparr>mcolumns = key, mrows = replicate n (replicate (length key) 0)\<rparr>"
proof -
  let ?labels = "map str [0..<1024]"
  have "list_all (\<lambda>i. i < 1024) (map (get_loc ?labels) key)"
    using get_loc_indexer_bound [OF assms] by simp
  then have "take_columns (map (get_loc ?labels) key) (replicate 1024 0) =
      replicate (length key) 0"
    using take_columns_zeros [of 1024 "map (get_loc ?labels) key"] by simp
  with assms show ?thesis
    by (simp add: select_present)
qed

text \<open>The run that ends with the predictions on the page.\<close>

lemma process_reported:
  assumes wf: "wf_frame df"
    and s: "map_of (cols df) col_SMILES = Some smiles"
    and a: "apply_series (compute_morgan_fingerprint e) smiles = Inr fps"
    and rows: "index df \<noteq> []"
    and sel: "select \<lparr>mcolumns = map str [0..<1024], mrows = fps\<rparr> (reduced_columns e) = Inr X"
    and m: "model_predict e X = Inr ps"
    and len: "length ps = length (index df)"
  obtains valid valid' where
    "setitem df col_Fingerprint (map FpList fps) = Inr valid"
    "setitem valid col_prediction (map Num ps) = Inr valid'"
    "fingerprint_stage e df = Inr valid" "feature_stage e valid = Inr X"
    "predict_stage e X valid = Inr valid'"
    "process e df =
       [St_spinner msg_processing, St_success msg_processed, St_write msg_predicting,
        St_success msg_done, St_write msg_results,
        St_dataframe \<lparr>index = index df,
                       cols = [(col_SMILES, smiles), (col_prediction, map Num ps)]\<rparr>,
        St_write msg_distribution,
        St_plotly_chart valid' col_prediction hist_title,
        St_download_button download_label
          \<lparr>header = [col_SMILES, col_prediction],
           records = map2 (\<lambda>c p. [c, Num p]) smiles ps\<rparr>
          ''predicoes.csv'' ''text/csv'']"
proof -
  have ls: "length smiles = length (index df)"
    using wf s by (rule wf_frame_column_length)
  have "length (map FpList fps) = length (index df)"
    using apply_series_length [OF a] ls by simp
  then obtain valid where u: "setitem df col_Fingerprint (map FpList fps) = Inr valid"
    using setitem_Inr by blast
  have f: "fingerprint_stage e df = Inr valid"
    using fingerprint_stage_Inr [OF wf] s a u by blast
  have iv: "index valid = index df"
    using u by (rule setitem_index)
  have nonempty: "\<not> empty_frame valid"
    using rows iv setitem_nonempty [OF u] by (simp add: empty_frame_def)
  have x: "feature_stage e valid = Inr X"
    using feature_stage_select [OF setitem_column [OF u] apply_encoder_widths [OF a], of e]
      sel by simp
  have "length (map Num ps) = length (index valid)"
    using len iv by simp
  then obtain valid' where u': "setitem valid col_prediction (map Num ps) = Inr valid'"
    using setitem_Inr by blast
  have p: "predict_stage e X valid = Inr valid'"
    using m u' by (simp add: predict_stage_Inr)
  have vs: "map_of (cols valid') col_SMILES = Some smiles"
    using setitem_other_columns [OF u', of col_SMILES]
      setitem_other_columns [OF u, of col_SMILES] column_names_differ s by simp
  have vp: "map_of (cols valid') col_prediction = Some (map Num ps)"
    using u' by (rule setitem_column)
  have iv': "index valid' = index df"
    using setitem_index [OF u'] iv by simp
  have recs: "map (\<lambda>i. [smiles ! i, map Num ps ! i]) [0..<length (index df)] =
      map2 (\<lambda>c p. [c, Num p]) smiles ps"
    using ls len by (intro nth_equalityI) simp_all
  have "process e df =
       [St_spinner msg_processing, St_success msg_processed, St_write msg_predicting] @
       report valid'"
    using f nonempty x p by (simp add: process_def)
  with report_shown [OF vs vp] iv' recs have
    "process e df =
       [St_spinner msg_processing, St_success msg_processed, St_write msg_predicting,
        St_success msg_done, St_write msg_results,
        St_dataframe \<lparr>index = index df,
                       cols = [(col_SMILES, smiles), (col_prediction, map Num ps)]\<rparr>,
        St_write msg_distribution,
        St_plotly_chart valid' col_prediction hist_title,
        St_download_button download_label
          \<lparr>header = [col_SMILES, col_prediction],
           records = map2 (\<lambda>c p. [c, Num p]) smiles ps\<rparr>
          ''predicoes.csv'' ''text/csv'']"
    by simp
  with u u' f x p show ?thesis by (rule that)
qed

text \<open>The run on a table without rows.\<close>

lemma process_no_rows:
  assumes wf: "wf_frame df" and s: "map_of (cols df) col_SMILES = Some smiles"
    and rows: "index df = []"
  shows "process e df = [St_spinner msg_processing, St_error msg_no_valid]"
proof -
  have "smiles = []"
    using wf_frame_column_length [OF wf s] rows by simp
  then have a: "apply_series (compute_morgan_fingerprint e) smiles = Inr []"
    by simp
  obtain valid where u: "setitem df col_Fingerprint (map FpList []) = Inr valid"
    using setitem_Inr [of "map FpList []" df] rows by auto
  have f: "fingerprint_stage e df = Inr valid"
    using fingerprint_stage_Inr [OF wf] s a u by blast
  have "empty_frame valid"
    using setitem_index [OF u] rows by (simp add: empty_frame_def)
  with f show ?thesis by (simp add: process_def)
qed

lemma demo_model_predict: "model_predict demo_env X = Inr (map sum_list (mrows X))"
  by (simp add: demo_env_def)

lemma demo_parser_rejects: "MolFromSmiles demo_env ''xyz'' = None"
  "MolFromSmiles demo_env ''not a molecule'' = None"
  by (simp_all add: demo_env_def demo_parser_def)

lemma str_digits: "set (str n) \<subseteq> set ''0123456789''"
proof (induction n rule: str.induct)
  case (1 n)
  have digit: "digit_char d \<in> set ''0123456789''" if "d < 10" for d
    unfolding digit_char_def using that by (intro nth_mem) simp
  show ?case
  proof (cases "n < 10")
    case True
    with digit [of n] show ?thesis
      by (subst str.simps) simp
  next
    case False
    with 1 digit [of "n mod 10"] show ?thesis
      by (subst str.simps) simp
  qed
qed

lemma fingerprint_stage_strings:
  assumes wf: "wf_frame df" and s: "map_of (cols df) col_SMILES = Some smiles"
    and strs: "list_all (\<lambda>c. \<exists>s. c = Str s) smiles"
  shows "\<exists>valid. fingerprint_stage e df = Inr valid"
proof (cases "fingerprint_stage e df")
  case (Inl err)
  with fingerprint_stage_Inl [OF wf s Inl] strs show ?thesis by simp
next
  case (Inr valid)
  then show ?thesis by blast
qed

lemma load_stage_shows_no_data:
  "load_stage use_example uploaded_file = (shown, r) \<Longrightarrow> downloads shown = [] \<and> charted shown = []"
  by (auto simp: load_stage_def split: if_splits option.splits)

lemma app_loaded:
  "load_stage use_example uploaded_file = (shown, Some df) \<Longrightarrow>
   app e use_example uploaded_file = shown @ process e df"
  by (simp add: app_def)

lemma downloads_report:
  "doc \<in> set (downloads (report v)) \<Longrightarrow>
   \<exists>shown. getitem_list v [col_SMILES, col_prediction] = Inr shown \<and> doc = to_csv shown"
  by (auto simp: report_def split: sum.splits)

text \<open>Only the run that reaches line 152 offers a download.\<close>

lemma downloads_process:
  assumes wf: "wf_frame df" and doc: "doc \<in> set (downloads (process e df))"
  obtains valid X valid' smiles ps where
    "fingerprint_stage e df = Inr valid" "feature_stage e valid = Inr X"
    "predict_stage e X valid = Inr valid'" "model_predict e X = Inr ps"
    "map_of (cols df) col_SMILES = Some smiles"
    "map_of (cols valid) col_SMILES = Some smiles"
    "index valid = index df" "length smiles = length (index df)"
    "length ps = length (index df)"
    "downloads (process e df) =
       [\<lparr>header = [col_SMILES, col_prediction],
         records = map2 (\<lambda>c p. [c, Num p]) smiles ps\<rparr>]"
proof (cases e df rule: process_cases)
  case (reported valid X valid')
  from wf reported(1,4) show ?thesis
  proof (rule reported_table)
    fix smiles fps ps
    assume s: "map_of (cols df) col_SMILES = Some smiles"
      and m: "model_predict e X = Inr ps"
      and ls: "length smiles = length (index df)" and lp: "length ps = length (index df)"
      and iv: "index valid = index df" and iv': "index valid' = index df"
      and vs: "map_of (cols valid) col_SMILES = Some smiles"
      and vs': "map_of (cols valid') col_SMILES = Some smiles"
      and vp': "map_of (cols valid') col_prediction = Some (map Num ps)"
    have "map (\<lambda>i. [smiles ! i, map Num ps ! i]) [0..<length (index df)] =
        map2 (\<lambda>c p. [c, Num p]) smiles ps"
      using ls lp by (intro nth_equalityI) simp_all
    with reported(5) report_shown [OF vs' vp'] iv' have
      "downloads (process e df) =
         [\<lparr>header = [col_SMILES, col_prediction],
           records = map2 (\<lambda>c p. [c, Num p]) smiles ps\<rparr>]"
      by simp
    with reported(1,3,4) m s vs iv ls lp show ?thesis
      by (rule that)
  qed
qed (use doc in simp_all)

lemma demo_unparseable_wf: "wf_frame demo_unparseable"
  by (simp add: wf_frame_def columns_def demo_unparseable_def)

lemma demo_unparseable_SMILES:
  "map_of (cols demo_unparseable) col_SMILES = Some [Str ''xyz'', Str ''not a molecule'']"
  by (simp add: col_SMILES_def demo_unparseable_def)

lemma demo_unparseable_process:
  "\<exists>valid'. process demo_env demo_unparseable =
     [St_spinner msg_processing, St_success msg_processed, St_write msg_predicting,
      St_success msg_done, St_write msg_results,
      St_dataframe \<lparr>index = [0, 1],
                     cols = [(col_SMILES, [Str ''xyz'', Str ''not a molecule'']),
                             (col_prediction, [Num 0, Num 0])]\<rparr>,
      St_write msg_distribution,
      St_plotly_chart valid' col_prediction hist_title,
      St_download_button download_label
        \<lparr>header = [col_SMILES, col_prediction],
         records = [[Str ''xyz'', Num 0], [Str ''not a molecule'', Num 0]]\<rparr>
        ''predicoes.csv'' ''text/csv'']"
proof -
  let ?smiles = "[Str ''xyz'', Str ''not a molecule''] :: int cell list"
  let ?X = "\<lparr>mcolumns = reduced_columns demo_env,
             mrows = replicate (length ?smiles) (replicate (length (reduced_columns demo_env)) 0)\<rparr>"
  have bad: "list_all (\<lambda>c. \<exists>s. c = Str s \<and> MolFromSmiles demo_env s = None) ?smiles"
    by (simp add: demo_parser_rejects)
  have a: "apply_series (compute_morgan_fingerprint demo_env) ?smiles =
      Inr (replicate (length ?smiles) (replicate 1024 0))"
    using bad by (rule apply_encoder_unparseable)
  have rows: "index demo_unparseable \<noteq> []"
    by (simp add: demo_unparseable_def)
  have sel: "select \<lparr>mcolumns = map str [0..<1024],
        mrows = replicate (length ?smiles) (replicate 1024 0)\<rparr>
      (reduced_columns demo_env) = Inr ?X"
    using demo_columns_present by (rule select_zero_rows)
  have m: "model_predict demo_env ?X = Inr [0, 0]"
    by (simp add: demo_model_predict sum_list_replicate)
  have len: "length [0, 0 :: int] = length (index demo_unparseable)"
    by (simp add: demo_unparseable_def)
  from demo_unparseable_wf demo_unparseable_SMILES a rows sel m len show ?thesis
    by (rule process_reported) (simp add: demo_unparseable_def)
qed

lemma demo_unparseable_load:
  "load_stage False (Some demo_unparseable) =
     ([St_success msg_loaded, St_write msg_preview, St_dataframe (head demo_unparseable)],
      Some demo_unparseable)"
  by (simp add: load_stage_def col_SMILES_def columns_def demo_unparseable_def)

lemma demo_unparseable_downloads:
  "downloads (app demo_env False (Some demo_unparseable)) =
     [\<lparr>header = [col_SMILES, col_prediction],
       records = [[Str ''xyz'', Num 0], [Str ''not a molecule'', Num 0]]\<rparr>]"
  using demo_unparseable_process
  by (auto simp: app_loaded [OF demo_unparseable_load] downloads_append)

lemma charted_report:
  "t \<in> set (charted (report v)) \<Longrightarrow> t = v"
  by (auto simp: report_def split: sum.splits)

text \<open>Only the run that reaches line 147 hands a table to the chart: the working table.\<close>

lemma charted_process:
  assumes wf: "wf_frame df" and t: "t \<in> set (charted (process e df))"
  obtains valid fps ps where
    "setitem df col_Fingerprint (map FpList fps) = Inr valid"
    "setitem valid col_prediction (map Num ps) = Inr t"
proof (cases e df rule: process_cases)
  case (reported valid X valid')
  from reported(5) t have "t = valid'"
    by (simp add: charted_report)
  from wf reported(1) reported(4) [unfolded \<open>t = valid'\<close> [symmetric]] show ?thesis
  proof (rule reported_table)
    fix fps ps
    assume "setitem df col_Fingerprint (map FpList fps) = Inr valid"
      and "setitem valid col_prediction (map Num ps) = Inr t"
    then show ?thesis by (rule that)
  qed
qed (use t in simp_all)

lemma setitem_getitem_other:
  "setitem df c vs = Inr df' \<Longrightarrow> c' \<noteq> c \<Longrightarrow> getitem df' c' = getitem df c'"
proof -
  assume "setitem df c vs = Inr df'" and "c' \<noteq> c"
  then have "map_of (cols df') c' = map_of (cols df) c'"
    by (rule setitem_other_columns)
  then show ?thesis by (simp add: getitem_def)
qed

lemma setitem_other_labels:
  "setitem df c vs = Inr df' \<Longrightarrow>
   filter (\<lambda>k. k \<noteq> c \<and> P k) (columns df') = filter (\<lambda>k. k \<noteq> c \<and> P k) (columns df)"
proof -
  assume "setitem df c vs = Inr df'"
  from setitem_columns [OF this] show ?thesis
    by (cases "c \<in> set (columns df)") simp_all
qed

lemma demo_extra_wf: "wf_frame demo_extra"
  by (simp add: wf_frame_def columns_def demo_extra_def)

lemma demo_extra_load:
  "load_stage False (Some demo_extra) =
     ([St_success msg_loaded, St_write msg_preview, St_dataframe (head demo_extra)],
      Some demo_extra)"
  by (simp add: load_stage_def col_SMILES_def columns_def demo_extra_def)

lemma demo_extra_process:
  "process demo_env demo_extra =
     [St_spinner msg_processing, St_success msg_processed, St_write msg_predicting,
      St_success msg_done, St_write msg_results,
      St_dataframe \<lparr>index = [0],
                     cols = [(col_SMILES, [Str ''xyz'']), (col_prediction, [Num 0])]\<rparr>,
      St_write msg_distribution,
      St_plotly_chart
        \<lparr>index = [0],
         cols = [(col_SMILES, [Str ''xyz'']), (col_Fingerprint, [FpList (replicate 1024 0)]),
                 (''note'', [Str ''keep me'']), (col_prediction, [Num 0])]\<rparr>
        col_prediction hist_title,
      St_download_button download_label
        \<lparr>header = [col_SMILES, col_prediction], records = [[Str ''xyz'', Num 0]]\<rparr>
        ''predicoes.csv'' ''text/csv'']"
proof -
  let ?smiles = "[Str ''xyz''] :: int cell list"
  let ?X = "\<lparr>mcolumns = reduced_columns demo_env,
             mrows = replicate (length ?smiles) (replicate (length (reduced_columns demo_env)) 0)\<rparr>"
  have s: "map_of (cols demo_extra) col_SMILES = Some ?smiles"
    by (simp add: col_SMILES_def demo_extra_def)
  have bad: "list_all (\<lambda>c. \<exists>s. c = Str s \<and> MolFromSmiles demo_env s = None) ?smiles"
    by (simp add: demo_parser_rejects)
  have a: "apply_series (compute_morgan_fingerprint demo_env) ?smiles =
      Inr (replicate (length ?smiles) (replicate 1024 0))"
    using bad by (rule apply_encoder_unparseable)
  have rows: "index demo_extra \<noteq> []"
    by (simp add: demo_extra_def)
  have sel: "select \<lparr>mcolumns = map str [0..<1024],
        mrows = replicate (length ?smiles) (replicate 1024 0)\<rparr>
      (reduced_columns demo_env) = Inr ?X"
    using demo_columns_present by (rule select_zero_rows)
  have m: "model_predict demo_env ?X = Inr [0]"
    by (simp add: demo_model_predict sum_list_replicate)
  have len: "length [0 :: int] = length (index demo_extra)"
    by (simp add: demo_extra_def)
  from demo_extra_wf s a rows sel m len show ?thesis
  proof (rule process_reported)
    fix valid valid'
    assume u: "setitem demo_extra col_Fingerprint
          (map FpList (replicate (length ?smiles) (replicate 1024 0))) = Inr valid"
      and u': "setitem valid col_prediction (map Num [0]) = Inr valid'"
      and page: "process demo_env demo_extra =
        [St_spinner msg_processing, St_success msg_processed, St_write msg_predicting,
         St_success msg_done, St_write msg_results,
         St_dataframe \<lparr>index = index demo_extra,
                        cols = [(col_SMILES, ?smiles), (col_prediction, map Num [0])]\<rparr>,
         St_write msg_distribution,
         St_plotly_chart valid' col_prediction hist_title,
         St_download_button download_label
           \<lparr>header = [col_SMILES, col_prediction],
            records = map2 (\<lambda>c p. [c, Num p]) ?smiles [0]\<rparr>
           ''predicoes.csv'' ''text/csv'']"
    from u have "valid = \<lparr>index = [0],
         cols = [(col_SMILES, [Str ''xyz'']), (col_Fingerprint, [FpList (replicate 1024 0)]),
                 (''note'', [Str ''keep me''])]\<rparr>"
      by (simp add: setitem_def columns_def demo_extra_def col_SMILES_def col_Fingerprint_def)
    with u' have "valid' = \<lparr>index = [0],
         cols = [(col_SMILES, [Str ''xyz'']), (col_Fingerprint, [FpList (replicate 1024 0)]),
                 (''note'', [Str ''keep me'']), (col_prediction, [Num 0])]\<rparr>"
      by (simp add: setitem_def columns_def col_SMILES_def col_Fingerprint_def
          col_prediction_def)
    with page show ?thesis
      by (simp add: demo_extra_def)
  qed
qed






lemma fingerprint_bit:
  assumes "MolFromSmiles e s = Some mol" and "i < 1024"
  shows "\<exists>v. compute_morgan_fingerprint e (Str s) = Inr v \<and>
     v ! i = (if i \<in> set (map (\<lambda>h. h mod 1024) (atom_env_hashes e 2 mol)) then 1 else 0)"
  using assms
  by (simp add: compute_morgan_fingerprint_def list_of_fp_def GetFingerprint_def morgan_gen_def)

text \<open>
  In the small deployment ethanol, \<^verbatim>\<open>CCO\<close>, hashes to 69 (twice) and 81: exactly these
  two positions of its fingerprint are set.
\<close>

lemma demo_fingerprint_CCO:
  "\<exists>v. compute_morgan_fingerprint demo_env (Str ''CCO'') = Inr v \<and>
     v ! 69 = 1 \<and> v ! 81 = 1 \<and> v ! 0 = 0 \<and> v ! 1023 = 0"
proof -
  have p: "MolFromSmiles demo_env ''CCO'' = Some ''CCO''"
    by (simp add: demo_env_def demo_parser_def)
  have h: "map (\<lambda>h. h mod 1024) (atom_env_hashes demo_env 2 ''CCO'') = [69, 69, 81]"
    by (simp add: demo_env_def)
  obtain v where v: "compute_morgan_fingerprint demo_env (Str ''CCO'') = Inr v"
    using compute_morgan_fingerprint_Str by blast
  from fingerprint_bit [OF p, of 69] fingerprint_bit [OF p, of 81]
    fingerprint_bit [OF p, of 0] fingerprint_bit [OF p, of 1023] v h
  show ?thesis by simp
qed

lemma displayed_append: "displayed (us @ vs) = displayed us @ displayed vs"
  by (induction us rule: displayed.induct) simp_all

lemma demo_numbers_wf: "wf_frame demo_numbers"
  by (simp add: wf_frame_def columns_def demo_numbers_def)

lemma demo_numbers_load:
  "load_stage False (Some demo_numbers) =
     ([St_success msg_loaded, St_write msg_preview, St_dataframe (head demo_numbers)],
      Some demo_numbers)"
  by (simp add: load_stage_def col_SMILES_def columns_def demo_numbers_def)

lemma demo_numbers_process:
  "process demo_env demo_numbers = [St_spinner msg_processing, St_exception TypeError]"
proof -
  have "compute_morgan_fingerprint demo_env (Num 1) = Inl TypeError"
    by (simp add: compute_morgan_fingerprint_def)
  then have "apply_series (compute_morgan_fingerprint demo_env) [Num 1, Num 2] = Inl TypeError"
    by simp
  then have "fingerprint_stage demo_env demo_numbers = Inl TypeError"
    by (simp add: fingerprint_stage_def getitem_def col_SMILES_def demo_numbers_def)
  then show ?thesis
    by (simp add: process_def)
qed

text \<open>
  The page of the run that reaches the chart: the result table and the download hold
  the \<^verbatim>\<open>SMILES\<close> cells of the upload beside the predictions, and nothing else.
\<close>

lemma charted_page:
  assumes wf: "wf_frame df" and t: "t \<in> set (charted (process e df))"
  obtains smiles ps where
    "map_of (cols df) col_SMILES = Some smiles"
    "length smiles = length (index df)" "length ps = length (index df)"
    "process e df =
       [St_spinner msg_processing, St_success msg_processed, St_write msg_predicting,
        St_success msg_done, St_write msg_results,
        St_dataframe \<lparr>index = index df,
                       cols = [(col_SMILES, smiles), (col_prediction, map Num ps)]\<rparr>,
        St_write msg_distribution,
        St_plotly_chart t col_prediction hist_title,
        St_download_button download_label
          \<lparr>header = [col_SMILES, col_prediction],
           records = map2 (\<lambda>c p. [c, Num p]) smiles ps\<rparr>
          ''predicoes.csv'' ''text/csv'']"
proof (cases e df rule: process_cases)
  case (reported valid X valid')
  from reported(5) t have eq: "t = valid'"
    by (simp add: charted_report)
  from wf reported(1,4) show ?thesis
  proof (rule reported_table)
    fix smiles fps ps
    assume s: "map_of (cols df) col_SMILES = Some smiles"
      and ls: "length smiles = length (index df)" and lp: "length ps = length (index df)"
      and iv': "index valid' = index df"
      and vs': "map_of (cols valid') col_SMILES = Some smiles"
      and vp': "map_of (cols valid') col_prediction = Some (map Num ps)"
    have "map (\<lambda>i. [smiles ! i, map Num ps ! i]) [0..<length (index df)] =
        map2 (\<lambda>c p. [c, Num p]) smiles ps"
      using ls lp by (intro nth_equalityI) simp_all
    with reported(5) report_shown [OF vs' vp'] iv' eq have
      "process e df =
       [St_spinner msg_processing, St_success msg_processed, St_write msg_predicting,
        St_success msg_done, St_write msg_results,
        St_dataframe \<lparr>index = index df,
                       cols = [(col_SMILES, smiles), (col_prediction, map Num ps)]\<rparr>,
        St_write msg_distribution,
        St_plotly_chart t col_prediction hist_title,
        St_download_button download_label
          \<lparr>header = [col_SMILES, col_prediction],
           records = map2 (\<lambda>c p. [c, Num p]) smiles ps\<rparr>
          ''predicoes.csv'' ''text/csv'']"
      by simp
    with s ls lp show ?thesis
      by (rule that)
  qed
qed (use t in simp_all)

section \<open>The claims\<close>

text \<open>
  Claim C1. For every input string that fails to parse as a molecule,
  \<open>compute_morgan_fingerprint\<close> returns a vector of exactly 1024 zeros instead of
  raising an error.
\<close>

theorem unparseable_zero_vector:
  "MolFromSmiles e s = None \<Longrightarrow> compute_morgan_fingerprint e (Str s) = Inr (replicate 1024 0)"
  by (simp add: compute_morgan_fingerprint_def)

theorem unparseable_zero_vector_witness:
  "MolFromSmiles demo_env ''xyz'' = None \<and>
   compute_morgan_fingerprint demo_env (Str ''xyz'') = Inr (replicate 1024 0)"
proof -
  have h: "MolFromSmiles demo_env ''xyz'' = None"
    by (simp add: demo_env_def demo_parser_def)
  show ?thesis
    using h unparseable_zero_vector [OF h] by simp
qed

text \<open>
  Claim C2. For every input string, valid or not, the encoder returns a vector of
  exactly 1024 entries, each a non-negative integer.
\<close>

theorem fingerprint_shape:
  "\<exists>v. compute_morgan_fingerprint e (Str s) = Inr v \<and> length v = 1024 \<and>
       list_all (\<lambda>x. 0 \<le> x) v"
proof -
  obtain v where v: "compute_morgan_fingerprint e (Str s) = Inr v" "length v = 1024"
    "set v \<subseteq> {0, 1}"
    using compute_morgan_fingerprint_Str by blast
  from v(3) have "list_all (\<lambda>x. 0 \<le> x) v"
    by (auto simp: list_all_iff)
  with v(1,2) show ?thesis by blast
qed

theorem fingerprint_shape_witness:
  "\<exists>v. compute_morgan_fingerprint demo_env (Str ''CCO'') = Inr v \<and> length v = 1024 \<and>
       list_all (\<lambda>x. 0 \<le> x) v"
  using fingerprint_shape [of demo_env "''CCO''"] by simp



text \<open>
  Claim C6. For every uploaded CSV lacking a column named \<^verbatim>\<open>SMILES\<close> (case-sensitive),
  the system reports the specific missing-column error and performs no fingerprinting
  or prediction on that upload: \<^verbatim>\<open>molecules_df\<close> is \<open>None\<close>, the \<^verbatim>\<open>try\<close> block is not
  entered, and the error is all the page shows.
\<close>

theorem missing_smiles_column:
  "col_SMILES \<notin> set (columns df) \<Longrightarrow>
   load_stage False (Some df) = ([St_error msg_missing_column], None) \<and>
   app e False (Some df) = [St_error msg_missing_column]"
  by (simp add: app_def load_stage_def)

theorem missing_smiles_column_witness:
  "col_SMILES \<notin> set (columns demo_lowercase) \<and>
   load_stage False (Some demo_lowercase) = ([St_error msg_missing_column], None) \<and>
   app demo_env False (Some demo_lowercase) = [St_error msg_missing_column]"
proof -
  have h: "col_SMILES \<notin> set (columns demo_lowercase)"
    by (simp add: col_SMILES_def columns_def demo_lowercase_def)
  from missing_smiles_column [OF h, of demo_env] h show ?thesis by simp
qed

text \<open>
  Claim C3, as stated, fails. The file with the lines \<^verbatim>\<open>SMILES\<close>, \<^verbatim>\<open>1\<close> and \<^verbatim>\<open>2\<close>
  has two rows and no SMILES value that parses; its cells are numbers, the parser
  raises on the first, the handler reports the exception and no prediction row is
  produced, under a deployment whose reduced columns all exist.
\<close>

theorem unparseable_rows_counterexample:
  "wf_frame demo_numbers \<and> index demo_numbers = [0, 1] \<and>
   getitem demo_numbers col_SMILES = Inr [Num 1, Num 2] \<and>
   set (reduced_columns demo_env) \<subseteq> set (map str [0..<1024]) \<and>
   app demo_env False (Some demo_numbers) =
     [St_success msg_loaded, St_write msg_preview, St_dataframe (head demo_numbers),
      St_spinner msg_processing, St_exception TypeError] \<and>
   concat (map records (downloads (app demo_env False (Some demo_numbers)))) = []"
  using demo_numbers_wf demo_columns_present
  by (simp add: app_loaded [OF demo_numbers_load] demo_numbers_process)
    (simp add: getitem_def demo_numbers_def col_SMILES_def)

text \<open>
  Claim C3, amended. For every uploaded table of N rows in which every SMILES value is
  a string that fails to parse, provided every reduced column exists among the
  fingerprint columns and the model answers the N zero rows with N values, the pipeline
  produces N prediction rows: each invalid molecule becomes a zero-vector and none is
  dropped before inference.
\<close>

theorem unparseable_rows_all_predicted:
  assumes wf: "wf_frame df"
    and s: "getitem df col_SMILES = Inr smiles"
    and bad: "list_all (\<lambda>c. \<exists>s. c = Str s \<and> MolFromSmiles e s = None) smiles"
    and keep: "set (reduced_columns e) \<subseteq> set (map str [0..<1024])"
    and m: "model_predict e
        \<lparr>mcolumns = reduced_columns e,
         mrows = replicate (length (index df)) (replicate (length (reduced_columns e)) 0)\<rparr> =
       Inr ps"
    and len: "length ps = length (index df)"
  shows "\<exists>valid. fingerprint_stage e df = Inr valid \<and> index valid = index df \<and>
      getitem valid col_Fingerprint =
        Inr (replicate (length (index df)) (FpList (replicate 1024 0))) \<and>
      feature_stage e valid =
        Inr \<lparr>mcolumns = reduced_columns e,
             mrows = replicate (length (index df)) (replicate (length (reduced_columns e)) 0)\<rparr> \<and>
      concat (map records (downloads (app e False (Some df)))) =
        map2 (\<lambda>c p. [c, Num p]) smiles ps \<and>
      length (concat (map records (downloads (app e False (Some df))))) = length (index df)"
proof -
  let ?n = "length (index df)"
  let ?X = "\<lparr>mcolumns = reduced_columns e,
             mrows = replicate ?n (replicate (length (reduced_columns e)) 0)\<rparr>"
  from s have col: "map_of (cols df) col_SMILES = Some smiles"
    by (simp add: getitem_eq)
  have ls: "length smiles = ?n"
    using wf col by (rule wf_frame_column_length)
  have a: "apply_series (compute_morgan_fingerprint e) smiles = Inr (replicate ?n (replicate 1024 0))"
    using apply_encoder_unparseable [OF bad] ls by simp
  have sel: "select \<lparr>mcolumns = map str [0..<1024], mrows = replicate ?n (replicate 1024 0)\<rparr>
      (reduced_columns e) = Inr ?X"
    using keep by (rule select_zero_rows)
  have "length (map FpList (replicate ?n (replicate 1024 0))) = ?n"
    by simp
  then obtain valid where
    u: "setitem df col_Fingerprint (map FpList (replicate ?n (replicate 1024 0))) = Inr valid"
    using setitem_Inr by blast
  have f: "fingerprint_stage e df = Inr valid"
    using fingerprint_stage_Inr [OF wf] col a u by blast
  have iv: "index valid = index df"
    using u by (rule setitem_index)
  have g: "getitem valid col_Fingerprint = Inr (replicate ?n (FpList (replicate 1024 0)))"
    using setitem_column [OF u] by (simp add: getitem_eq)
  have x: "feature_stage e valid = Inr ?X"
    using feature_stage_select [OF setitem_column [OF u] apply_encoder_widths [OF a], of e]
      sel by simp
  have present: "col_SMILES \<in> set (columns df)"
    using col by (rule column_present)
  have page: "concat (map records (downloads (app e False (Some df)))) =
      map2 (\<lambda>c p. [c, Num p]) smiles ps"
  proof (cases "index df = []")
    case True
    with ls len process_no_rows [OF wf col True, of e] show ?thesis
      by (simp add: app_upload [OF present] downloads_append)
  next
    case False
    from wf col a False sel m len show ?thesis
      by (rule process_reported) (simp add: app_upload [OF present] downloads_append)
  qed
  moreover have "length (map2 (\<lambda>c p. [c, Num p]) smiles ps) = ?n"
    using ls len by simp
  ultimately show ?thesis
    using f iv g x by simp
qed

theorem unparseable_rows_all_predicted_witness:
  "wf_frame demo_unparseable \<and>
   getitem demo_unparseable col_SMILES = Inr [Str ''xyz'', Str ''not a molecule''] \<and>
   list_all (\<lambda>c. \<exists>s. c = Str s \<and> MolFromSmiles demo_env s = None)
     [Str ''xyz'', Str ''not a molecule''] \<and>
   set (reduced_columns demo_env) \<subseteq> set (map str [0..<1024]) \<and>
   concat (map records (downloads (app demo_env False (Some demo_unparseable)))) =
     [[Str ''xyz'', Num 0], [Str ''not a molecule'', Num 0]]"
proof -
  have wf: "wf_frame demo_unparseable"
    by (simp add: wf_frame_def columns_def demo_unparseable_def)
  have s: "getitem demo_unparseable col_SMILES = Inr [Str ''xyz'', Str ''not a molecule'']"
    by (simp add: getitem_def col_SMILES_def demo_unparseable_def)
  have bad: "list_all (\<lambda>c. \<exists>s. c = Str s \<and> MolFromSmiles demo_env s = None)
      [Str ''xyz'', Str ''not a molecule'']"
    by (simp add: demo_parser_rejects)
  have n: "length (index demo_unparseable) = 2"
    by (simp add: demo_unparseable_def)
  have k: "length (reduced_columns demo_env) = 3"
    by (simp add: demo_env_def)
  have m: "model_predict demo_env
      \<lparr>mcolumns = reduced_columns demo_env,
       mrows = replicate (length (index demo_unparseable))
         (replicate (length (reduced_columns demo_env)) 0)\<rparr> = Inr [0, 0]"
    by (simp add: demo_model_predict n k numeral_2_eq_2 numeral_3_eq_3)
  have len: "length [0, 0 :: int] = length (index demo_unparseable)"
    by (simp add: n)
  from unparseable_rows_all_predicted [OF wf s bad demo_columns_present m len]
  have "concat (map records (downloads (app demo_env False (Some demo_unparseable)))) =
      map2 (\<lambda>c p. [c, Num p]) [Str ''xyz'', Str ''not a molecule''] [0, 0]"
    by blast
  then have "concat (map records (downloads (app demo_env False (Some demo_unparseable)))) =
      [[Str ''xyz'', Num 0], [Str ''not a molecule'', Num 0]]"
    by simp
  with wf s bad demo_columns_present show ?thesis
    by blast
qed

text \<open>
  Claim C5. For every keep-list containing an identifier absent from the input's
  columns, feature selection fails with an exception, caught only by the top-level
  generic handler, rather than silently producing a wrong-width result: the page ends
  with the handler's message for the \<open>KeyError\<close> that names the absent identifiers, and
  the model is not called.
\<close>

theorem schema_mismatch_raises:
  assumes wf: "wf_frame df"
    and f: "fingerprint_stage e df = Inr valid"
    and rows: "index df \<noteq> []"
    and absent: "\<not> set (reduced_columns e) \<subseteq> set (map str [0..<1024])"
  shows "\<exists>missing. missing \<noteq> [] \<and>
      set missing = set (reduced_columns e) - set (map str [0..<1024]) \<and>
      feature_stage e valid = Inl (KeyError missing) \<and>
      process e df =
        [St_spinner msg_processing, St_success msg_processed, St_exception (KeyError missing)]"
proof -
  let ?labels = "map str [0..<1024]"
  let ?missing = "filter (\<lambda>k. k \<notin> set ?labels) (reduced_columns e)"
  from f obtain smiles fps where
    a: "apply_series (compute_morgan_fingerprint e) smiles = Inr fps"
    and u: "setitem df col_Fingerprint (map FpList fps) = Inr valid"
    using fingerprint_stage_Inr [OF wf] by blast
  have "feature_stage e valid = select \<lparr>mcolumns = ?labels, mrows = fps\<rparr> (reduced_columns e)"
    using setitem_column [OF u] apply_encoder_widths [OF a] by (rule feature_stage_select)
  also have "\<dots> = Inl (KeyError ?missing)"
    using absent select_missing [of "reduced_columns e" "\<lparr>mcolumns = ?labels, mrows = fps\<rparr>"]
    by simp
  finally have x: "feature_stage e valid = Inl (KeyError ?missing)" .
  have nonempty: "\<not> empty_frame valid"
    using rows setitem_index [OF u] setitem_nonempty [OF u] by (simp add: empty_frame_def)
  have page: "process e df =
      [St_spinner msg_processing, St_success msg_processed, St_exception (KeyError ?missing)]"
    using f nonempty x by (simp add: process_def)
  have "?missing \<noteq> []"
    using absent by (auto simp: filter_empty_conv)
  moreover have "set ?missing = set (reduced_columns e) - set ?labels"
    by auto
  ultimately show ?thesis
    using x page by blast
qed

theorem schema_mismatch_raises_witness:
  "wf_frame demo_unparseable \<and>
   (\<exists>valid. fingerprint_stage demo_mislabelled_env demo_unparseable = Inr valid) \<and>
   index demo_unparseable \<noteq> [] \<and>
   \<not> set (reduced_columns demo_mislabelled_env) \<subseteq> set (map str [0..<1024]) \<and>
   (\<exists>missing. missing \<noteq> [] \<and>
      process demo_mislabelled_env demo_unparseable =
        [St_spinner msg_processing, St_success msg_processed, St_exception (KeyError missing)])"
proof -
  have wf: "wf_frame demo_unparseable"
    by (simp add: wf_frame_def columns_def demo_unparseable_def)
  have s: "map_of (cols demo_unparseable) col_SMILES = Some [Str ''xyz'', Str ''not a molecule'']"
    by (simp add: col_SMILES_def demo_unparseable_def)
  obtain valid where f: "fingerprint_stage demo_mislabelled_env demo_unparseable = Inr valid"
    using fingerprint_stage_strings [OF wf s] by auto
  have rows: "index demo_unparseable \<noteq> []"
    by (simp add: demo_unparseable_def)
  have "''morgan_fp_1'' \<noteq> str n" for n
  proof
    assume "''morgan_fp_1'' = str n"
    with str_digits [of n] have "set ''morgan_fp_1'' \<subseteq> set ''0123456789''"
      by simp
    then show False by simp
  qed
  then have "''morgan_fp_1'' \<notin> set (map str [0..<1024])"
    by auto
  then have absent: "\<not> set (reduced_columns demo_mislabelled_env) \<subseteq> set (map str [0..<1024])"
    by (simp add: demo_mislabelled_env_def)
  from schema_mismatch_raises [OF wf f rows absent] wf f rows absent show ?thesis
    by blast
qed

text \<open>
  Claim C7. For every successful run, the downloadable result CSV has exactly two
  columns named \<^verbatim>\<open>SMILES\<close> and \<open>col_prediction\<close>, with one row per
  processed molecule in the same order as the (post-filtering) input rows. A run is
  successful when it offers the download; record \<open>i\<close> of the document holds the
  \<^verbatim>\<open>SMILES\<close> cell of row \<open>i\<close> and the model's value for that row.
\<close>

theorem download_csv_contract:
  assumes load: "load_stage use_example uploaded_file = (shown, Some df)"
    and wf: "wf_frame df"
    and doc: "doc \<in> set (downloads (app e use_example uploaded_file))"
  shows "\<exists>valid X smiles ps.
      fingerprint_stage e df = Inr valid \<and> feature_stage e valid = Inr X \<and>
      model_predict e X = Inr ps \<and>
      getitem df col_SMILES = Inr smiles \<and> getitem valid col_SMILES = Inr smiles \<and>
      index valid = index df \<and>
      length smiles = length (index df) \<and> length ps = length (index df) \<and>
      header doc = [col_SMILES, col_prediction] \<and>
      records doc = map2 (\<lambda>c p. [c, Num p]) smiles ps \<and>
      length (records doc) = length (index df) \<and>
      downloads (app e use_example uploaded_file) = [doc]"
proof -
  have page: "downloads (app e use_example uploaded_file) = downloads (process e df)"
    using load_stage_shows_no_data [OF load] by (simp add: app_loaded [OF load] downloads_append)
  with doc have "doc \<in> set (downloads (process e df))"
    by simp
  with wf show ?thesis
  proof (rule downloads_process)
    fix valid X valid' smiles ps
    assume f: "fingerprint_stage e df = Inr valid" and x: "feature_stage e valid = Inr X"
      and m: "model_predict e X = Inr ps"
      and s: "map_of (cols df) col_SMILES = Some smiles"
      and vs: "map_of (cols valid) col_SMILES = Some smiles"
      and iv: "index valid = index df"
      and ls: "length smiles = length (index df)" and lp: "length ps = length (index df)"
      and d: "downloads (process e df) =
         [\<lparr>header = [col_SMILES, col_prediction],
           records = map2 (\<lambda>c p. [c, Num p]) smiles ps\<rparr>]"
    from d doc page have doc_eq: "doc = \<lparr>header = [col_SMILES, col_prediction],
           records = map2 (\<lambda>c p. [c, Num p]) smiles ps\<rparr>"
      by simp
    then have "header doc = [col_SMILES, col_prediction]"
      "records doc = map2 (\<lambda>c p. [c, Num p]) smiles ps"
      "length (records doc) = length (index df)"
      using ls lp by simp_all
    moreover have "downloads (app e use_example uploaded_file) = [doc]"
      using page d doc_eq by simp
    moreover have "getitem df col_SMILES = Inr smiles" "getitem valid col_SMILES = Inr smiles"
      using s vs by (simp_all add: getitem_present)
    ultimately show ?thesis
      using f x m iv ls lp by blast
  qed
qed


theorem download_csv_contract_witness:
  "load_stage False (Some demo_unparseable) =
     ([St_success msg_loaded, St_write msg_preview, St_dataframe (head demo_unparseable)],
      Some demo_unparseable) \<and>
   wf_frame demo_unparseable \<and>
   \<lparr>header = [col_SMILES, col_prediction],
     records = [[Str ''xyz'', Num 0], [Str ''not a molecule'', Num 0]]\<rparr>
     \<in> set (downloads (app demo_env False (Some demo_unparseable))) \<and>
   (\<exists>valid X smiles ps.
      fingerprint_stage demo_env demo_unparseable = Inr valid \<and>
      feature_stage demo_env valid = Inr X \<and> model_predict demo_env X = Inr ps \<and>
      getitem demo_unparseable col_SMILES = Inr smiles \<and>
      [[Str ''xyz'', Num 0], [Str ''not a molecule'', Num 0]] =
        map2 (\<lambda>c p. [c, Num p]) smiles ps)"
proof -
  let ?doc = "\<lparr>header = [col_SMILES, col_prediction],
     records = [[Str ''xyz'', Num 0], [Str ''not a molecule'', Num (0::int)]]\<rparr>"
  have doc: "?doc \<in> set (downloads (app demo_env False (Some demo_unparseable)))"
    by (simp add: demo_unparseable_downloads)
  from download_csv_contract [OF demo_unparseable_load demo_unparseable_wf doc]
  have "\<exists>valid X smiles ps.
      fingerprint_stage demo_env demo_unparseable = Inr valid \<and>
      feature_stage demo_env valid = Inr X \<and> model_predict demo_env X = Inr ps \<and>
      getitem demo_unparseable col_SMILES = Inr smiles \<and>
      [[Str ''xyz'', Num 0], [Str ''not a molecule'', Num 0]] =
        map2 (\<lambda>c p. [c, Num p]) smiles ps"
    by fastforce
  with demo_unparseable_load demo_unparseable_wf doc show ?thesis
    by blast
qed

text \<open>
  Claim C9, as stated, fails. An upload with a column of its own named
  \<^verbatim>\<open>Fingerprint\<close> and a column \<^verbatim>\<open>note\<close>: the working table that reaches the chart
  holds the computed fingerprints in place of the uploaded cells, and the download
  has the two result columns only, without \<^verbatim>\<open>note\<close>.
\<close>

theorem extra_columns_counterexample:
  "getitem demo_extra col_Fingerprint = Inr [Str ''mine''] \<and>
   getitem demo_extra ''note'' = Inr [Str ''keep me''] \<and>
   charted (app demo_env False (Some demo_extra)) =
     [\<lparr>index = [0],
       cols = [(col_SMILES, [Str ''xyz'']), (col_Fingerprint, [FpList (replicate 1024 0)]),
               (''note'', [Str ''keep me'']), (col_prediction, [Num 0])]\<rparr>] \<and>
   downloads (app demo_env False (Some demo_extra)) =
     [\<lparr>header = [col_SMILES, col_prediction], records = [[Str ''xyz'', Num 0]]\<rparr>]"
  by (simp add: app_loaded [OF demo_extra_load] demo_extra_process)
    (simp add: getitem_def demo_extra_def col_Fingerprint_def)

text \<open>
  Claim C9, amended. Every uploaded column whose name is neither \<^verbatim>\<open>Fingerprint\<close> nor
  the prediction column \<open>col_prediction\<close> is carried unchanged through the run: in the
  working table that the script hands to the chart it has the same cells, the rows and
  their labels are those of the upload, and the columns other than the two the script
  writes stand in the order of the upload. Additional columns do not reach the output:
  besides the preview of the upload, the one table displayed is the result table, which
  consists of the \<^verbatim>\<open>SMILES\<close> column of the upload and the prediction column and of
  nothing else, and the one download is the CSV of that table, with these two columns.
\<close>

theorem extra_columns_kept:
  assumes wf: "wf_frame df"
    and t: "t \<in> set (charted (app e False (Some df)))"
    and c: "c \<noteq> col_Fingerprint" "c \<noteq> col_prediction"
  shows "getitem t c = getitem df c \<and> index t = index df \<and>
     filter (\<lambda>k. k \<noteq> col_Fingerprint \<and> k \<noteq> col_prediction) (columns t) =
       filter (\<lambda>k. k \<noteq> col_Fingerprint \<and> k \<noteq> col_prediction) (columns df) \<and>
     list_all (\<lambda>doc. header doc = [col_SMILES, col_prediction])
       (downloads (app e False (Some df))) \<and>
     (\<exists>smiles ps. getitem df col_SMILES = Inr smiles \<and>
        displayed (app e False (Some df)) =
          [head df,
           \<lparr>index = index df,
            cols = [(col_SMILES, smiles), (col_prediction, map Num ps)]\<rparr>] \<and>
        downloads (app e False (Some df)) =
          [to_csv \<lparr>index = index df,
                   cols = [(col_SMILES, smiles), (col_prediction, map Num ps)]\<rparr>] \<and>
        header (to_csv \<lparr>index = index df,
                   cols = [(col_SMILES, smiles), (col_prediction, map Num ps)]\<rparr>) =
          [col_SMILES, col_prediction])"
proof -
  obtain shown r where load: "load_stage False (Some df) = (shown, r)"
    by (cases "load_stage False (Some df)")
  have r: "r = Some df"
  proof (cases r)
    case None
    with load t load_stage_shows_no_data [OF load] show ?thesis
      by (simp add: app_def)
  next
    case (Some df')
    with load show ?thesis
      by (auto simp: load_stage_def split: if_splits)
  qed
  note load = load [unfolded r]
  have page: "charted (app e False (Some df)) = charted (process e df)"
    "downloads (app e False (Some df)) = downloads (process e df)"
    using load_stage_shows_no_data [OF load]
    by (simp_all add: app_loaded [OF load] charted_append downloads_append)
  have shown: "shown = [St_success msg_loaded, St_write msg_preview, St_dataframe (head df)]"
    using load by (auto simp: load_stage_def split: if_splits)
  have preview: "displayed (app e False (Some df)) = head df # displayed (process e df)"
    by (simp add: app_loaded [OF load] shown)
  from t page have "t \<in> set (charted (process e df))"
    by simp
  with wf obtain valid fps ps where
    u: "setitem df col_Fingerprint (map FpList fps) = Inr valid"
    and u': "setitem valid col_prediction (map Num ps) = Inr t"
    by (rule charted_process)
  have "getitem t c = getitem df c"
    using setitem_getitem_other [OF u' c(2)] setitem_getitem_other [OF u c(1)] by simp
  moreover have "index t = index df"
    using setitem_index [OF u'] setitem_index [OF u] by simp
  moreover have "filter (\<lambda>k. k \<noteq> col_Fingerprint \<and> k \<noteq> col_prediction) (columns t) =
       filter (\<lambda>k. k \<noteq> col_Fingerprint \<and> k \<noteq> col_prediction) (columns df)"
  proof -
    have "filter (\<lambda>k. k \<noteq> col_prediction \<and> k \<noteq> col_Fingerprint) (columns t) =
        filter (\<lambda>k. k \<noteq> col_prediction \<and> k \<noteq> col_Fingerprint) (columns valid)"
      using u' by (rule setitem_other_labels)
    moreover have "filter (\<lambda>k. k \<noteq> col_Fingerprint \<and> k \<noteq> col_prediction) (columns valid) =
        filter (\<lambda>k. k \<noteq> col_Fingerprint \<and> k \<noteq> col_prediction) (columns df)"
      using u by (rule setitem_other_labels)
    ultimately show ?thesis
      by (simp add: conj_commute)
  qed
  moreover have "list_all (\<lambda>doc. header doc = [col_SMILES, col_prediction])
       (downloads (app e False (Some df)))"
    unfolding list_all_iff page
  proof
    fix doc assume d: "doc \<in> set (downloads (process e df))"
    from wf d show "header doc = [col_SMILES, col_prediction]"
    proof (rule downloads_process)
      fix smiles ps
      assume "downloads (process e df) =
         [\<lparr>header = [col_SMILES, col_prediction],
           records = map2 (\<lambda>c p. [c, Num p]) smiles ps\<rparr>]"
      with d show ?thesis by simp
    qed
  qed
  moreover have "\<exists>smiles ps. getitem df col_SMILES = Inr smiles \<and>
        displayed (app e False (Some df)) =
          [head df,
           \<lparr>index = index df,
            cols = [(col_SMILES, smiles), (col_prediction, map Num ps)]\<rparr>] \<and>
        downloads (app e False (Some df)) =
          [to_csv \<lparr>index = index df,
                   cols = [(col_SMILES, smiles), (col_prediction, map Num ps)]\<rparr>] \<and>
        header (to_csv \<lparr>index = index df,
                   cols = [(col_SMILES, smiles), (col_prediction, map Num ps)]\<rparr>) =
          [col_SMILES, col_prediction]"
    using wf \<open>t \<in> set (charted (process e df))\<close>
  proof (rule charted_page)
    fix smiles ps
    assume s: "map_of (cols df) col_SMILES = Some smiles"
      and ls: "length smiles = length (index df)" and lp: "length ps = length (index df)"
      and run: "process e df =
       [St_spinner msg_processing, St_success msg_processed, St_write msg_predicting,
        St_success msg_done, St_write msg_results,
        St_dataframe \<lparr>index = index df,
                       cols = [(col_SMILES, smiles), (col_prediction, map Num ps)]\<rparr>,
        St_write msg_distribution,
        St_plotly_chart t col_prediction hist_title,
        St_download_button download_label
          \<lparr>header = [col_SMILES, col_prediction],
           records = map2 (\<lambda>c p. [c, Num p]) smiles ps\<rparr>
          ''predicoes.csv'' ''text/csv'']"
    have csv: "to_csv \<lparr>index = index df,
          cols = [(col_SMILES, smiles), (col_prediction, map Num ps)]\<rparr> =
        \<lparr>header = [col_SMILES, col_prediction],
         records = map2 (\<lambda>c p. [c, Num p]) smiles ps\<rparr>"
    proof -
      have "map (\<lambda>i. [smiles ! i, map Num ps ! i]) [0..<length (index df)] =
          map2 (\<lambda>c p. [c, Num p]) smiles ps"
        using ls lp by (intro nth_equalityI) simp_all
      then show ?thesis by (simp add: to_csv_two)
    qed
    have "getitem df col_SMILES = Inr smiles"
      using s by (rule getitem_present)
    moreover have "displayed (app e False (Some df)) =
          [head df,
           \<lparr>index = index df,
            cols = [(col_SMILES, smiles), (col_prediction, map Num ps)]\<rparr>]"
      by (simp add: preview run)
    moreover have "downloads (app e False (Some df)) =
          [to_csv \<lparr>index = index df,
                   cols = [(col_SMILES, smiles), (col_prediction, map Num ps)]\<rparr>]"
      by (simp add: page(2) run csv)
    moreover have "header (to_csv \<lparr>index = index df,
                   cols = [(col_SMILES, smiles), (col_prediction, map Num ps)]\<rparr>) =
          [col_SMILES, col_prediction]"
      by (simp add: csv)
    ultimately show ?thesis by blast
  qed
  ultimately show ?thesis by blast
qed

theorem extra_columns_kept_witness:
  "wf_frame demo_extra \<and>
   \<lparr>index = [0],
     cols = [(col_SMILES, [Str ''xyz'']), (col_Fingerprint, [FpList (replicate 1024 0)]),
             (''note'', [Str ''keep me'']), (col_prediction, [Num 0])]\<rparr>
     \<in> set (charted (app demo_env False (Some demo_extra))) \<and>
   ''note'' \<noteq> col_Fingerprint \<and> ''note'' \<noteq> col_prediction \<and>
   getitem \<lparr>index = [0],
     cols = [(col_SMILES, [Str ''xyz'']), (col_Fingerprint, [FpList (replicate 1024 0)]),
             (''note'', [Str ''keep me'']), (col_prediction, [Num (0::int)])]\<rparr> ''note'' =
     getitem demo_extra ''note'' \<and>
   list_all (\<lambda>doc. header doc = [col_SMILES, col_prediction])
     (downloads (app demo_env False (Some demo_extra))) \<and>
   (\<exists>smiles ps. getitem demo_extra col_SMILES = Inr smiles \<and>
      displayed (app demo_env False (Some demo_extra)) =
        [head demo_extra,
         \<lparr>index = index demo_extra,
          cols = [(col_SMILES, smiles), (col_prediction, map Num ps)]\<rparr>]) \<and>
   displayed (app demo_env False (Some demo_extra)) =
     [head demo_extra,
      \<lparr>index = [0], cols = [(col_SMILES, [Str ''xyz'']), (col_prediction, [Num 0])]\<rparr>]"
proof -
  let ?t = "\<lparr>index = [0],
     cols = [(col_SMILES, [Str ''xyz'']), (col_Fingerprint, [FpList (replicate 1024 0)]),
             (''note'', [Str ''keep me'']), (col_prediction, [Num (0::int)])]\<rparr>"
  have t: "?t \<in> set (charted (app demo_env False (Some demo_extra)))"
    by (simp add: app_loaded [OF demo_extra_load] demo_extra_process)
  have c: "''note'' \<noteq> col_Fingerprint" "''note'' \<noteq> col_prediction"
    by (simp_all add: col_Fingerprint_def col_prediction_def)
  have d: "displayed (app demo_env False (Some demo_extra)) =
     [head demo_extra,
      \<lparr>index = [0], cols = [(col_SMILES, [Str ''xyz'']), (col_prediction, [Num 0])]\<rparr>]"
    by (simp add: app_loaded [OF demo_extra_load] demo_extra_process)
  from extra_columns_kept [OF demo_extra_wf t c] demo_extra_wf t c d show ?thesis
    by blast
qed




end
